theory Spec2Isabelle
  imports Main "HOL-Library.Word"
begin

unbundle bit_operations_syntax

section \<open>Bytes, exceptions and the library calls of generate_icons.py\<close>

type_synonym byte = "8 word"
type_synonym bytes = "byte list"

text \<open>
  The exceptions the script can meet. \<open>StructError\<close> is \<open>struct.error\<close>, \<open>ValueError\<close> is
  what \<open>bytearray.extend\<close> raises for an item outside \<open>range(256)\<close>, \<open>OSError\<close> carries the
  message of a failed system call, \<open>UnicodeEncodeError\<close> is what \<open>print\<close> raises for a
  character that the encoding of the standard output does not have. These four derive from
  Python's \<open>Exception\<close>; \<open>KeyboardInterrupt\<close> derives from \<open>BaseException\<close> only.
\<close>

datatype exn = StructError | ValueError | OSError string | UnicodeEncodeError | KeyboardInterrupt

fun is_Exception :: "exn \<Rightarrow> bool" where
  "is_Exception KeyboardInterrupt = False"
| "is_Exception StructError = True"
| "is_Exception ValueError = True"
| "is_Exception (OSError m) = True"
| "is_Exception UnicodeEncodeError = True"

text \<open>A bytes literal with ASCII characters, such as \<open>b'IHDR'\<close>.\<close>

definition ascii :: "string \<Rightarrow> bytes" where
  "ascii s = map (\<lambda>c. of_int (of_char c)) s"

subsection \<open>struct.pack with a big-endian format\<close>

text \<open>
  \<open>be32 n\<close> is the four bytes of \<open>n\<close>, most significant first; \<open>from_be\<close> reads a
  big-endian byte string back as a number.
\<close>

definition be32 :: "int \<Rightarrow> bytes" where
  "be32 n = [of_int (n div 2 ^ 24 mod 256), of_int (n div 2 ^ 16 mod 256),
             of_int (n div 2 ^ 8 mod 256), of_int (n mod 256)]"

definition from_be :: "bytes \<Rightarrow> int" where
  "from_be bs = foldl (\<lambda>a b. a * 256 + uint b) 0 bs"

text \<open>
  The format codes used by the script: \<open>I\<close> (unsigned, 4 bytes) and \<open>B\<close> (unsigned, 1 byte),
  always in a big-endian format without padding. A value outside the range of its code, or a
  number of values different from the number of codes, raises \<open>struct.error\<close>.
\<close>

datatype fmt = FmtI | FmtB

fun pack_field :: "fmt \<Rightarrow> int \<Rightarrow> exn + bytes" where
  "pack_field FmtI v = (if 0 \<le> v \<and> v < 2 ^ 32 then Inr (be32 v) else Inl StructError)"
| "pack_field FmtB v = (if 0 \<le> v \<and> v < 2 ^ 8 then Inr [of_int v] else Inl StructError)"

fun struct_pack :: "fmt list \<Rightarrow> int list \<Rightarrow> exn + bytes" where
  "struct_pack [] [] = Inr []"
| "struct_pack (f # fs) (v # vs) =
     (case pack_field f v of
        Inl e \<Rightarrow> Inl e
      | Inr b \<Rightarrow> (case struct_pack fs vs of Inl e \<Rightarrow> Inl e | Inr bs \<Rightarrow> Inr (b @ bs)))"
| "struct_pack [] (v # vs) = Inl StructError"
| "struct_pack (f # fs) [] = Inl StructError"

subsection \<open>zlib.crc32\<close>

text \<open>
  The CRC-32 of zlib and PNG: reflected polynomial \<open>0xEDB88320\<close>, initial value and final
  XOR \<open>0xFFFFFFFF\<close>, one bit at a time. The register is an unsigned number below \<open>2 ^ 32\<close>
  (\<open>in_u32\<close>): \<open>c mod 2\<close> is its lowest bit and \<open>c div 2\<close> the shift to the right. The
  result is an unsigned Python integer.
\<close>

definition in_u32 :: "int \<Rightarrow> bool" where
  "in_u32 c \<longleftrightarrow> 0 \<le> c \<and> c < 2 ^ 32"

definition crc_shift :: "int \<Rightarrow> int" where
  "crc_shift c = (if c mod 2 = 1 then (c div 2) XOR 0xEDB88320 else c div 2)"

definition crc_byte :: "int \<Rightarrow> byte \<Rightarrow> int" where
  "crc_byte c b = (crc_shift ^^ 8) (c XOR uint b)"

definition zlib_crc32 :: "bytes \<Rightarrow> int" where
  "zlib_crc32 bs = foldl crc_byte 0xFFFFFFFF bs XOR 0xFFFFFFFF"

subsection \<open>bytearray.extend and range\<close>

text \<open>
  \<open>bytearray.extend\<close> with a tuple of integers appends one byte per item and raises
  \<open>ValueError\<close> when an item is not in \<open>range(256)\<close>.
\<close>

definition bytearray_extend :: "bytes \<Rightarrow> int list \<Rightarrow> exn + bytes" where
  "bytearray_extend buf xs =
     (if list_all (\<lambda>x. 0 \<le> x \<and> x < 256) xs then Inr (buf @ map of_int xs) else Inl ValueError)"

text \<open>The number of iterations of \<open>for i in range(n)\<close>: none when \<open>n\<close> is negative.\<close>

definition range_len :: "int \<Rightarrow> nat" where
  "range_len n = nat n"

section \<open>create_chunk and create_png\<close>

text \<open>
  \<open>create_chunk\<close> (lines 43 to 48). Both calls of \<open>struct.pack\<close> can raise; the CRC is
  masked with \<open>0xffffffff\<close> before it is packed.
\<close>

definition create_chunk :: "bytes \<Rightarrow> bytes \<Rightarrow> exn + bytes" where
  "create_chunk chunk_type data =
     (case struct_pack [FmtI] [int (length data)] of
        Inl e \<Rightarrow> Inl e
      | Inr len \<Rightarrow>
          (let crc = zlib_crc32 (chunk_type @ data) AND 0xffffffff in
           case struct_pack [FmtI] [crc] of
             Inl e \<Rightarrow> Inl e
           | Inr crc_bytes \<Rightarrow> Inr (len @ chunk_type @ data @ crc_bytes)))"

definition png_signature :: bytes where
  "png_signature = [0x89] @ ascii ''PNG'' @ [0x0D, 0x0A, 0x1A, 0x0A]"

text \<open>
  The loops of lines 24 to 29. \<open>fill_row n\<close> is the inner loop with \<open>n\<close> iterations left,
  \<open>fill_rows m\<close> the outer one; the buffer is passed along and an exception ends both.
\<close>

fun fill_row :: "nat \<Rightarrow> int list \<Rightarrow> bytes \<Rightarrow> exn + bytes" where
  "fill_row 0 bg_color buf = Inr buf"
| "fill_row (Suc n) bg_color buf =
     (case bytearray_extend buf bg_color of
        Inl e \<Rightarrow> Inl e
      | Inr buf' \<Rightarrow> fill_row n bg_color buf')"

fun fill_rows :: "nat \<Rightarrow> int \<Rightarrow> int list \<Rightarrow> bytes \<Rightarrow> exn + bytes" where
  "fill_rows 0 width bg_color buf = Inr buf"
| "fill_rows (Suc m) width bg_color buf =
     (case fill_row (range_len width) bg_color (buf @ [0]) of
        Inl e \<Rightarrow> Inl e
      | Inr buf' \<Rightarrow> fill_rows m width bg_color buf')"

definition image_data :: "int \<Rightarrow> int \<Rightarrow> int list \<Rightarrow> exn + bytes" where
  "image_data width height bg_color = fill_rows (range_len height) width bg_color []"

text \<open>
  \<open>create_png\<close> (lines 11 to 41). \<open>zlib.compress\<close> is the parameter \<open>compress\<close>, a function
  of the data and the level. \<open>text_color\<close> is a parameter of the source too.
\<close>

definition create_png ::
  "(bytes \<Rightarrow> int \<Rightarrow> bytes) \<Rightarrow> int \<Rightarrow> int \<Rightarrow> int list \<Rightarrow> int list \<Rightarrow> exn + bytes" where
  "create_png compress width height bg_color text_color =
     (case struct_pack [FmtI, FmtI, FmtB, FmtB, FmtB, FmtB, FmtB] [width, height, 8, 2, 0, 0, 0] of
        Inl e \<Rightarrow> Inl e
      | Inr ihdr_data \<Rightarrow>
     (case create_chunk (ascii ''IHDR'') ihdr_data of
        Inl e \<Rightarrow> Inl e
      | Inr ihdr_chunk \<Rightarrow>
     (case image_data width height bg_color of
        Inl e \<Rightarrow> Inl e
      | Inr raw \<Rightarrow>
     (let compressed_data = compress raw 9 in
      case create_chunk (ascii ''IDAT'') compressed_data of
        Inl e \<Rightarrow> Inl e
      | Inr idat_chunk \<Rightarrow>
     (case create_chunk (ascii ''IEND'') [] of
        Inl e \<Rightarrow> Inl e
      | Inr iend_chunk \<Rightarrow> Inr (png_signature @ ihdr_chunk @ idat_chunk @ iend_chunk))))))"

definition default_bg_color :: "int list" where
  "default_bg_color = [255, 107, 107]"

definition default_text_color :: "int list" where
  "default_text_color = [33, 150, 243]"

section \<open>The files, the console and the driver\<close>

text \<open>
  What the script sees of its environment: the regular files by path, the directories, the
  lines printed so far, and how the system answers. \<open>fault\<close> says for each system call and
  path whether the call is refused and with which exception, whatever the files and
  directories are (a permission, a full disk, an interrupt). \<open>print_fault\<close> says the same
  for each line that \<open>print\<close> is asked to write. \<open>flush_fails\<close> says whether the last
  flush of the standard output, when the interpreter ends, fails. A refused call changes
  nothing.
\<close>

datatype io_op = OpMakedirs | OpOpen | OpWrite

text \<open>
  One constructor for each \<open>print\<close> of the script: lines 62 and 63, the two lines 81 and 85
  with the path and the size, lines 87 to 93, and lines 99 to 104 of the handler. The text of
  lines 63, 87, 90, 101 and 103 is ASCII; every other line has a character outside ASCII.
\<close>

datatype console_line =
    MsgGenerating
  | MsgRule
  | MsgCreated string int
  | MsgBlankRule
  | MsgComplete
  | MsgNote
  | MsgProduction
  | MsgRightClick
  | MsgAdaptive
  | MsgConfigured
  | MsgError exn
  | MsgAlternative
  | MsgStep1
  | MsgStep2
  | MsgStep3
  | MsgStep4

record world =
  files :: "string \<rightharpoonup> bytes"
  dirs :: "string set"
  stdout :: "console_line list"
  fault :: "io_op \<Rightarrow> string \<Rightarrow> exn option"
  print_fault :: "console_line \<Rightarrow> exn option"
  flush_fails :: bool

text \<open>\<open>print\<close>: the line is written, or the exception of \<open>print_fault\<close> is raised.\<close>

definition print :: "console_line \<Rightarrow> world \<Rightarrow> (exn + unit) \<times> world" where
  "print l w =
     (case print_fault w l of
        Some e \<Rightarrow> (Inl e, w)
      | None \<Rightarrow> (Inr (), w\<lparr>stdout := stdout w @ [l]\<rparr>))"

text \<open>Several \<open>print\<close> statements in a row: the first exception ends the row.\<close>

fun print_lines :: "console_line list \<Rightarrow> world \<Rightarrow> (exn + unit) \<times> world" where
  "print_lines [] w = (Inr (), w)"
| "print_lines (l # ls) w =
     (case print l w of
        (Inl e, w') \<Rightarrow> (Inl e, w')
      | (Inr u, w') \<Rightarrow> print_lines ls w')"

text \<open>\<open>os.path.join\<close> with two arguments, on POSIX.\<close>

definition path_join :: "string \<Rightarrow> string \<Rightarrow> string" where
  "path_join a b =
     (case b of
        c # cs \<Rightarrow>
          if c = CHR ''/'' then b
          else if a = [] \<or> last a = CHR ''/'' then a @ b else a @ ''/'' @ b
      | [] \<Rightarrow> if a = [] \<or> last a = CHR ''/'' then a else a @ ''/'')"

text \<open>The path itself and every prefix of it that ends before a separator.\<close>

definition path_prefixes :: "string \<Rightarrow> string list" where
  "path_prefixes p = map (\<lambda>i. take i p) (filter (\<lambda>i. p ! i = CHR ''/'') [1..<length p]) @ [p]"

text \<open>
  The path without its last component and the separator before it; empty for a path with
  no directory part, which names an entry of the current directory.
\<close>

definition parent_dir :: "string \<Rightarrow> string" where
  "parent_dir p = rev (drop 1 (dropWhile (\<lambda>c. c \<noteq> CHR ''/'') (rev p)))"

text \<open>
  \<open>os.makedirs(p, exist_ok=True)\<close>: it raises when a regular file stands at the path or at
  one of its prefixes; otherwise the directory and its missing ancestors exist afterwards.
\<close>

definition os_makedirs :: "string \<Rightarrow> world \<Rightarrow> (exn + unit) \<times> world" where
  "os_makedirs p w =
     (case fault w OpMakedirs p of
        Some e \<Rightarrow> (Inl e, w)
      | None \<Rightarrow>
          if list_ex (\<lambda>q. files w q \<noteq> None) (butlast (path_prefixes p))
          then (Inl (OSError ''Not a directory''), w)
          else if files w p \<noteq> None then (Inl (OSError ''File exists''), w)
          else (Inr (), w\<lparr>dirs := dirs w \<union> set (path_prefixes p)\<rparr>))"

text \<open>
  \<open>open(p, 'wb')\<close> raises when the path is a directory or when its directory does not
  exist; otherwise it truncates or creates the file. \<open>f.write(data)\<close> appends to the file;
  after a refused write the file is as \<open>open\<close> left it.
\<close>

definition open_wb :: "string \<Rightarrow> world \<Rightarrow> (exn + unit) \<times> world" where
  "open_wb p w =
     (case fault w OpOpen p of
        Some e \<Rightarrow> (Inl e, w)
      | None \<Rightarrow>
          if p \<in> dirs w then (Inl (OSError ''Is a directory''), w)
          else if parent_dir p \<noteq> [] \<and> parent_dir p \<notin> dirs w
          then (Inl (OSError ''No such file or directory''), w)
          else (Inr (), w\<lparr>files := (files w)(p \<mapsto> [])\<rparr>))"

definition file_write :: "string \<Rightarrow> bytes \<Rightarrow> world \<Rightarrow> (exn + unit) \<times> world" where
  "file_write p data w =
     (case fault w OpWrite p of
        Some e \<Rightarrow> (Inl e, w)
      | None \<Rightarrow>
          (Inr (), w\<lparr>files := (files w)(p \<mapsto> (case files w p of None \<Rightarrow> [] | Some old \<Rightarrow> old) @ data)\<rparr>))"

text \<open>\<open>with open(p, 'wb') as f: f.write(data)\<close>\<close>

definition write_file :: "string \<Rightarrow> bytes \<Rightarrow> world \<Rightarrow> (exn + unit) \<times> world" where
  "write_file p data w =
     (case open_wb p w of
        (Inl e, w') \<Rightarrow> (Inl e, w')
      | (Inr u, w') \<Rightarrow> file_write p data w')"

definition densities :: "(string \<times> int) list" where
  "densities = [(''mdpi'', 48), (''hdpi'', 72), (''xhdpi'', 96), (''xxhdpi'', 144), (''xxxhdpi'', 192)]"

definition base_path :: string where
  "base_path = ''app/src/main/res''"

text \<open>
  The body of the loop of lines 65 to 85, for one entry of the table; \<open>size_px\<close> is the
  source's \<open>size\<close>.
\<close>

definition icon_step ::
  "(bytes \<Rightarrow> int \<Rightarrow> bytes) \<Rightarrow> string \<times> int \<Rightarrow> world \<Rightarrow> (exn + unit) \<times> world" where
  "icon_step compress entry w =
     (case entry of (density, size_px) \<Rightarrow>
       (let mipmap_dir = path_join base_path (''mipmap-'' @ density) in
         (case os_makedirs mipmap_dir w of
            (Inl e, w1) \<Rightarrow> (Inl e, w1)
          | (Inr u, w1) \<Rightarrow>
             (let launcher_path = path_join mipmap_dir ''ic_launcher.png'';
                  launcher_round_path = path_join mipmap_dir ''ic_launcher_round.png'' in
               (case create_png compress size_px size_px default_bg_color default_text_color of
                  Inl e \<Rightarrow> (Inl e, w1)
                | Inr png_data \<Rightarrow>
                   (case write_file launcher_path png_data w1 of
                      (Inl e, w2) \<Rightarrow> (Inl e, w2)
                    | (Inr u, w2) \<Rightarrow>
                       (case print (MsgCreated launcher_path size_px) w2 of
                          (Inl e, w3) \<Rightarrow> (Inl e, w3)
                        | (Inr u, w3) \<Rightarrow>
                           (case write_file launcher_round_path png_data w3 of
                              (Inl e, w4) \<Rightarrow> (Inl e, w4)
                            | (Inr u, w4) \<Rightarrow>
                                print (MsgCreated launcher_round_path size_px) w4))))))))"

fun icon_loop ::
  "(bytes \<Rightarrow> int \<Rightarrow> bytes) \<Rightarrow> (string \<times> int) list \<Rightarrow> world \<Rightarrow> (exn + unit) \<times> world" where
  "icon_loop compress [] w = (Inr (), w)"
| "icon_loop compress (entry # rest) w =
     (case icon_step compress entry w of
        (Inl e, w') \<Rightarrow> (Inl e, w')
      | (Inr u, w') \<Rightarrow> icon_loop compress rest w')"

text \<open>\<open>generate_all_icons\<close> (lines 50 to 93).\<close>

definition generate_all_icons ::
  "(bytes \<Rightarrow> int \<Rightarrow> bytes) \<Rightarrow> world \<Rightarrow> (exn + unit) \<times> world" where
  "generate_all_icons compress w =
     (case print_lines [MsgGenerating, MsgRule] w of
        (Inl e, w0) \<Rightarrow> (Inl e, w0)
      | (Inr u, w0) \<Rightarrow>
         (case icon_loop compress densities w0 of
            (Inl e, w') \<Rightarrow> (Inl e, w')
          | (Inr u, w') \<Rightarrow>
              print_lines [MsgBlankRule, MsgComplete, MsgNote, MsgProduction, MsgRightClick,
                           MsgAdaptive, MsgConfigured] w'))"

text \<open>
  The script's entry point (lines 95 to 104): \<open>except Exception\<close> handles the exceptions that
  derive from \<open>Exception\<close> and lets any other through. An exception that a \<open>print\<close> of the
  handler raises leaves the script.
\<close>

definition script_main ::
  "(bytes \<Rightarrow> int \<Rightarrow> bytes) \<Rightarrow> world \<Rightarrow> (exn + unit) \<times> world" where
  "script_main compress w =
     (case generate_all_icons compress w of
        (Inr u, w') \<Rightarrow> (Inr (), w')
      | (Inl e, w') \<Rightarrow>
          if is_Exception e
          then print_lines [MsgError e, MsgAlternative, MsgStep1, MsgStep2, MsgStep3, MsgStep4] w'
          else (Inl e, w'))"

text \<open>
  The interpreter's exit status after the script: not 0 when an exception leaves the script,
  and not 0 when the last flush of the standard output fails; 0 otherwise.
\<close>

datatype exit_code = ExitZero | ExitNonZero

definition exit_status :: "(exn + unit) \<times> world \<Rightarrow> exit_code" where
  "exit_status r =
     (case r of
        (Inl e, w) \<Rightarrow> ExitNonZero
      | (Inr u, w) \<Rightarrow> if flush_fails w then ExitNonZero else ExitZero)"

section \<open>Reading a stream back\<close>

text \<open>
  What a reader of the container format sees, used to state what the produced bytes decode
  to. \<open>read_chunks\<close> splits a byte string into chunks: a 4-byte big-endian length, a 4-byte
  type, that many bytes of payload, and a 4-byte big-endian CRC that must be the CRC-32 of
  type and payload. It gives the list of (type, payload) pairs, or \<open>None\<close> when the string
  is cut short or a CRC is wrong. \<open>read_png\<close> checks the 8-byte signature first.
\<close>

function read_chunks :: "bytes \<Rightarrow> (bytes \<times> bytes) list option" where
  "read_chunks bs =
     (if bs = [] then Some []
      else if length bs < 12 then None
      else
        (let n = nat (from_be (take 4 bs)); ty = take 4 (drop 4 bs) in
         if length bs < 12 + n then None
         else
           (let data = take n (drop 8 bs); crc = from_be (take 4 (drop (8 + n) bs)) in
            if crc \<noteq> zlib_crc32 (ty @ data) then None
            else
              (case read_chunks (drop (12 + n) bs) of
                 None \<Rightarrow> None
               | Some cs \<Rightarrow> Some ((ty, data) # cs)))))"
  by pat_completeness auto
termination
  by (relation "measure length") auto

declare read_chunks.simps [simp del]

definition read_png :: "bytes \<Rightarrow> (bytes \<times> bytes) list option" where
  "read_png png = (if take 8 png = png_signature then read_chunks (drop 8 png) else None)"

text \<open>
  Reading a raw image buffer as a picture reader does: scanline \<open>y\<close> of an image of width
  \<open>w\<close> starts at offset \<open>y * (1 + 3 * w)\<close> with its filter byte, and its pixel \<open>x\<close> is the
  three bytes at offset \<open>1 + 3 * x\<close> of the scanline.
\<close>

definition filter_byte :: "bytes \<Rightarrow> nat \<Rightarrow> nat \<Rightarrow> bytes" where
  "filter_byte raw w y = take 1 (drop (y * (1 + 3 * w)) raw)"

definition pixel :: "bytes \<Rightarrow> nat \<Rightarrow> nat \<Rightarrow> nat \<Rightarrow> bytes" where
  "pixel raw w y x = take 3 (drop (y * (1 + 3 * w) + 1 + 3 * x) raw)"

text \<open>The files of the layout \<open>app/src/main/res/mipmap-<density>/\<close>, two for each density.\<close>

definition expected_icon_files :: "string list" where
  "expected_icon_files =
     [''app/src/main/res/mipmap-mdpi/ic_launcher.png'',
      ''app/src/main/res/mipmap-mdpi/ic_launcher_round.png'',
      ''app/src/main/res/mipmap-hdpi/ic_launcher.png'',
      ''app/src/main/res/mipmap-hdpi/ic_launcher_round.png'',
      ''app/src/main/res/mipmap-xhdpi/ic_launcher.png'',
      ''app/src/main/res/mipmap-xhdpi/ic_launcher_round.png'',
      ''app/src/main/res/mipmap-xxhdpi/ic_launcher.png'',
      ''app/src/main/res/mipmap-xxhdpi/ic_launcher_round.png'',
      ''app/src/main/res/mipmap-xxxhdpi/ic_launcher.png'',
      ''app/src/main/res/mipmap-xxxhdpi/ic_launcher_round.png'']"

section \<open>Stand-ins for the examples\<close>

text \<open>A function to put in the place of \<open>zlib.compress\<close> in examples: it stores the data as it is.\<close>

definition store_compress :: "bytes \<Rightarrow> int \<Rightarrow> bytes" where
  "store_compress xs level = xs"

text \<open>
  A world with no file, no directory and nothing printed, in which every line can be printed
  and the last flush succeeds, and three ways for the system to answer its calls: never
  refusing, refusing every \<open>os.makedirs\<close> with an \<open>OSError\<close>, and interrupting every
  \<open>os.makedirs\<close> with a \<open>KeyboardInterrupt\<close> (the user pressing Ctrl-C).
\<close>

definition empty_world :: "(io_op \<Rightarrow> string \<Rightarrow> exn option) \<Rightarrow> world" where
  "empty_world f = \<lparr>files = Map.empty, dirs = {}, stdout = [], fault = f,
                     print_fault = (\<lambda>l. None), flush_fails = False\<rparr>"

definition no_fault :: "io_op \<Rightarrow> string \<Rightarrow> exn option" where
  "no_fault op p = None"

definition refuse_makedirs :: "io_op \<Rightarrow> string \<Rightarrow> exn option" where
  "refuse_makedirs op p = (if op = OpMakedirs then Some (OSError ''Permission denied'') else None)"

definition interrupt_makedirs :: "io_op \<Rightarrow> string \<Rightarrow> exn option" where
  "interrupt_makedirs op p = (if op = OpMakedirs then Some KeyboardInterrupt else None)"

text \<open>
  A standard output whose encoding is ASCII: \<open>print\<close> raises \<open>UnicodeEncodeError\<close> for every
  line with a character outside ASCII. \<open>ascii_world\<close> is the empty world with this output.
\<close>

fun ascii_only :: "console_line \<Rightarrow> exn option" where
  "ascii_only MsgRule = None"
| "ascii_only MsgBlankRule = None"
| "ascii_only MsgProduction = None"
| "ascii_only MsgStep1 = None"
| "ascii_only MsgStep3 = None"
| "ascii_only MsgGenerating = Some UnicodeEncodeError"
| "ascii_only (MsgCreated p n) = Some UnicodeEncodeError"
| "ascii_only MsgComplete = Some UnicodeEncodeError"
| "ascii_only MsgNote = Some UnicodeEncodeError"
| "ascii_only MsgRightClick = Some UnicodeEncodeError"
| "ascii_only MsgAdaptive = Some UnicodeEncodeError"
| "ascii_only MsgConfigured = Some UnicodeEncodeError"
| "ascii_only (MsgError e) = Some UnicodeEncodeError"
| "ascii_only MsgAlternative = Some UnicodeEncodeError"
| "ascii_only MsgStep2 = Some UnicodeEncodeError"
| "ascii_only MsgStep4 = Some UnicodeEncodeError"

definition ascii_world :: world where
  "ascii_world = (empty_world no_fault)\<lparr>print_fault := ascii_only\<rparr>"

section \<open>Big-endian fields, the CRC and chunk framing\<close>

lemma uint_byte_mod: "uint (of_int (k mod 256) :: byte) = k mod 256"
  by (simp add: uint_word_of_int)

lemma from_be_be32: "0 \<le> n \<Longrightarrow> n < 2 ^ 32 \<Longrightarrow> from_be (be32 n) = n"
proof -
  assume n: "0 \<le> n" "n < 2 ^ 32"
  have 1: "n div 2 ^ 16 = n div 256 div 256" by (simp add: zdiv_zmult2_eq)
  have 2: "n div 2 ^ 24 = n div 256 div 256 div 256" by (simp add: zdiv_zmult2_eq)
  have 3: "n div 256 div 256 div 256 < 256" "0 \<le> n div 256 div 256 div 256" using n by simp_all
  have "from_be (be32 n) = ((n div 2 ^ 24 mod 256 * 256 + n div 2 ^ 16 mod 256) * 256
          + n div 2 ^ 8 mod 256) * 256 + n mod 256"
    unfolding from_be_def be32_def by (simp only: foldl.simps uint_byte_mod) simp
  also have "\<dots> = n" unfolding 1 2 using 3 by simp
  finally show ?thesis .
qed

lemma length_be32: "length (be32 n) = 4"
  by (simp add: be32_def)

lemma xor_in_u32: "in_u32 x \<Longrightarrow> in_u32 y \<Longrightarrow> in_u32 (x XOR y)"
  unfolding in_u32_def using XOR_upper [of x 32 y] by simp

lemma crc_shift_in_u32: "in_u32 c \<Longrightarrow> in_u32 (crc_shift c)"
proof -
  assume c: "in_u32 c"
  then have d: "in_u32 (c div 2)" unfolding in_u32_def by auto
  have p: "in_u32 0xEDB88320" by (simp add: in_u32_def)
  show ?thesis unfolding crc_shift_def using d xor_in_u32 [OF d p] by simp
qed

lemma crc_shift_pow_in_u32: "in_u32 c \<Longrightarrow> in_u32 ((crc_shift ^^ k) c)"
  by (induction k) (simp_all add: crc_shift_in_u32)

lemma crc_byte_in_u32: "in_u32 c \<Longrightarrow> in_u32 (crc_byte c b)"
proof -
  assume c: "in_u32 c"
  have "uint b < 2 ^ 8" using uint_bounded [of b] by simp
  then have b: "in_u32 (uint b)" by (simp add: in_u32_def)
  show ?thesis unfolding crc_byte_def
    by (rule crc_shift_pow_in_u32) (rule xor_in_u32 [OF c b])
qed

lemma crc_fold_in_u32: "in_u32 c \<Longrightarrow> in_u32 (foldl crc_byte c bs)"
  by (induction bs arbitrary: c) (simp_all add: crc_byte_in_u32)

lemma zlib_crc32_range: "0 \<le> zlib_crc32 bs \<and> zlib_crc32 bs < 2 ^ 32"
proof -
  have m: "in_u32 0xFFFFFFFF" by (simp add: in_u32_def)
  have "in_u32 (zlib_crc32 bs)"
    unfolding zlib_crc32_def by (rule xor_in_u32 [OF crc_fold_in_u32 [OF m] m])
  then show ?thesis by (simp add: in_u32_def)
qed

lemma and_mask32: "0 \<le> x \<Longrightarrow> x < 2 ^ 32 \<Longrightarrow> x AND 0xffffffff = (x::int)"
proof -
  assume a: "0 \<le> x" "x < 2 ^ 32"
  have "(0xffffffff::int) = mask 32" by (simp add: mask_eq_exp_minus_1)
  then have "x AND 0xffffffff = take_bit 32 x" by (simp add: take_bit_eq_mask)
  also have "\<dots> = x" using a by (simp add: take_bit_int_eq_self)
  finally show ?thesis .
qed

lemma struct_pack_I:
  "struct_pack [FmtI] [v] = (if 0 \<le> v \<and> v < 2 ^ 32 then Inr (be32 v) else Inl StructError)"
  by simp

lemma create_chunk_eq:
  "create_chunk ty data =
     (if length data < 2 ^ 32
      then Inr (be32 (int (length data)) @ ty @ data @ be32 (zlib_crc32 (ty @ data)))
      else Inl StructError)"
proof -
  have m: "zlib_crc32 (ty @ data) AND 0xffffffff = zlib_crc32 (ty @ data)"
    using zlib_crc32_range [of "ty @ data"] by (simp add: and_mask32)
  have l: "int (length data) < 2 ^ 32 \<longleftrightarrow> length data < 2 ^ 32"
    by (metis of_nat_less_iff of_nat_numeral of_nat_power)
  show ?thesis
    unfolding create_chunk_def Let_def m struct_pack_I
    using zlib_crc32_range [of "ty @ data"] by (simp add: l)
qed

lemma int_length_bound: "length (data::bytes) < 2 ^ 32 \<Longrightarrow> int (length data) < 2 ^ 32"
  by (metis of_nat_less_iff of_nat_numeral of_nat_power)

lemma read_chunks_Nil [simp]: "read_chunks [] = Some []"
  by (subst read_chunks.simps) simp

text \<open>Reading one framed chunk off the front of a byte string.\<close>

lemma read_chunks_frame:
  assumes len: "length data < 2 ^ 32" and ty: "length ty = 4"
  shows "read_chunks (be32 (int (length data)) @ ty @ data @ be32 (zlib_crc32 (ty @ data)) @ rest) =
           (case read_chunks rest of None \<Rightarrow> None | Some cs \<Rightarrow> Some ((ty, data) # cs))"
proof -
  let ?c = "be32 (int (length data)) @ ty @ data @ be32 (zlib_crc32 (ty @ data)) @ rest"
  have n: "nat (from_be (take 4 ?c)) = length data"
    using int_length_bound [OF len] by (simp add: length_be32 from_be_be32)
  have t: "take 4 (drop 4 ?c) = ty"
    using ty by (simp add: length_be32)
  have d: "take (length data) (drop 8 ?c) = data"
    using ty by (simp add: length_be32)
  have c: "from_be (take 4 (drop (8 + length data) ?c)) = zlib_crc32 (ty @ data)"
    using ty zlib_crc32_range [of "ty @ data"] by (simp add: length_be32 from_be_be32)
  have r: "drop (12 + length data) ?c = rest"
    using ty by (simp add: length_be32)
  have l: "\<not> length ?c < 12 + length data" "\<not> length ?c < 12" "?c \<noteq> []"
    using ty by (auto simp: length_be32 be32_def)
  show ?thesis
    by (subst read_chunks.simps) (simp only: Let_def n t d c r l if_False not_False_eq_True if_True simp_thms)
qed

section \<open>The loops that fill the image buffer\<close>

lemma struct_pack_ihdr:
  "struct_pack [FmtI, FmtI, FmtB, FmtB, FmtB, FmtB, FmtB] [width, height, 8, 2, 0, 0, 0] =
     (if (0 \<le> width \<and> width < 2 ^ 32) \<and> (0 \<le> height \<and> height < 2 ^ 32)
      then Inr (be32 width @ be32 height @ [8, 2, 0, 0, 0]) else Inl StructError)"
  by simp

lemma fill_row_valid:
  "list_all (\<lambda>x. 0 \<le> x \<and> x < 256) bg \<Longrightarrow>
     fill_row n bg buf = Inr (buf @ concat (replicate n (map of_int bg)))"
  by (induction n arbitrary: buf) (simp_all add: bytearray_extend_def)

lemma fill_row_invalid:
  "\<not> list_all (\<lambda>x. 0 \<le> x \<and> x < 256) bg \<Longrightarrow> fill_row (Suc n) bg buf = Inl ValueError"
  by (simp add: bytearray_extend_def)

lemma fill_rows_valid:
  "list_all (\<lambda>x. 0 \<le> x \<and> x < 256) bg \<Longrightarrow>
     fill_rows m width bg buf =
       Inr (buf @ concat (replicate m (0 # concat (replicate (nat width) (map of_int bg)))))"
  by (induction m arbitrary: buf) (simp_all add: fill_row_valid range_len_def)

lemma fill_rows_no_width:
  "width \<le> 0 \<Longrightarrow> fill_rows m width bg buf = Inr (buf @ replicate m 0)"
  by (induction m arbitrary: buf) (simp_all add: range_len_def replicate_append_same)

lemma image_data_valid:
  "list_all (\<lambda>x. 0 \<le> x \<and> x < 256) bg \<Longrightarrow>
     image_data width height bg =
       Inr (concat (replicate (nat height) (0 # concat (replicate (nat width) (map of_int bg)))))"
  by (simp add: image_data_def fill_rows_valid range_len_def)

lemma image_data_empty:
  "width \<le> 0 \<or> height \<le> 0 \<Longrightarrow> image_data width height bg = Inr (replicate (nat height) 0)"
  by (auto simp: image_data_def fill_rows_no_width range_len_def)

lemma image_data_invalid:
  "0 < width \<Longrightarrow> 0 < height \<Longrightarrow> \<not> list_all (\<lambda>x. 0 \<le> x \<and> x < 256) bg \<Longrightarrow>
     image_data width height bg = Inl ValueError"
proof -
  assume a: "0 < width" "0 < height" "\<not> list_all (\<lambda>x. 0 \<le> x \<and> x < 256) bg"
  obtain m where m: "nat height = Suc m" using a(2) by (cases "nat height") auto
  obtain n where n: "nat width = Suc n" using a(1) by (cases "nat width") auto
  show ?thesis
    using a(3) by (simp add: image_data_def range_len_def m n bytearray_extend_def)
qed

lemma drop_concat_replicate:
  "drop (k * length xs) (concat (replicate n xs)) = concat (replicate (n - k) xs)"
proof (induction n arbitrary: k)
  case 0
  then show ?case by simp
next
  case (Suc n)
  show ?case
  proof (cases k)
    case 0
    then show ?thesis by simp
  next
    case (Suc j)
    then show ?thesis using Suc.IH [of j] by simp
  qed
qed

lemma length_concat_replicate: "length (concat (replicate n xs)) = n * length xs"
  by (induction n) simp_all

lemma scanline_pixel:
  assumes px: "length px = 3" and y: "y < h" and x: "x < w"
  shows "pixel (concat (replicate h (0 # concat (replicate w px)))) w y x = px"
proof -
  let ?row = "0 # concat (replicate w px)"
  have lrow: "length ?row = 1 + 3 * w"
    using px by (simp add: length_concat_replicate)
  have "drop (y * (1 + 3 * w)) (concat (replicate h ?row)) = concat (replicate (h - y) ?row)"
    using drop_concat_replicate [of y ?row h] lrow by simp
  moreover obtain j where j: "h - y = Suc j" using y by (cases "h - y") auto
  ultimately have d: "drop (y * (1 + 3 * w)) (concat (replicate h ?row)) = ?row @ concat (replicate j ?row)"
    by simp
  have "drop (3 * x) (concat (replicate w px)) = concat (replicate (w - x) px)"
    using drop_concat_replicate [of x px w] px by (simp add: mult.commute)
  moreover obtain i where i: "w - x = Suc i" using x by (cases "w - x") auto
  ultimately have e: "drop (3 * x) (concat (replicate w px)) = px @ concat (replicate i px)"
    by simp
  have l: "3 * x \<le> length (concat (replicate w px))"
    using x px by (simp add: length_concat_replicate)
  have "drop (y * (1 + 3 * w) + 1 + 3 * x) (concat (replicate h ?row))
          = drop (1 + 3 * x) (drop (y * (1 + 3 * w)) (concat (replicate h ?row)))"
    by (simp add: add.commute add.left_commute)
  also have "\<dots> = drop (1 + 3 * x) (?row @ concat (replicate j ?row))"
    by (simp only: d)
  also have "\<dots> = drop (3 * x) (concat (replicate w px)) @ concat (replicate j ?row)"
    using l by simp
  also have "\<dots> = px @ concat (replicate i px) @ concat (replicate j ?row)"
    by (simp only: e append_assoc)
  finally show ?thesis
    unfolding pixel_def using px by simp
qed

lemma scanline_filter_byte:
  assumes that: "length px = 3" and y: "y < h"
  shows "filter_byte (concat (replicate h (0 # concat (replicate w px)))) w y = [0]"
proof -
  let ?row = "0 # concat (replicate w px)"
  have lrow: "length ?row = 1 + 3 * w"
    using that by (simp add: length_concat_replicate)
  have "drop (y * (1 + 3 * w)) (concat (replicate h ?row)) = concat (replicate (h - y) ?row)"
    using drop_concat_replicate [of y ?row h] lrow by simp
  moreover obtain j where j: "h - y = Suc j" using y by (cases "h - y") auto
  ultimately have d: "drop (y * (1 + 3 * w)) (concat (replicate h ?row)) = ?row @ concat (replicate j ?row)"
    by simp
  show ?thesis unfolding filter_byte_def by (simp only: d) simp
qed

section \<open>The encoder in one equation, and its stream read back\<close>

lemma length_png_signature: "length png_signature = 8"
  by (simp add: png_signature_def ascii_def)

lemma length_chunk_types:
  "length (ascii ''IHDR'') = 4" "length (ascii ''IDAT'') = 4" "length (ascii ''IEND'') = 4"
  by (simp_all add: ascii_def)

lemma create_png_eq:
  "create_png zc w h bg t =
     (if (0 \<le> w \<and> w < 2 ^ 32) \<and> (0 \<le> h \<and> h < 2 ^ 32) then
        (case image_data w h bg of
           Inl e \<Rightarrow> Inl e
         | Inr raw \<Rightarrow>
             if length (zc raw 9) < 2 ^ 32 then
               Inr (png_signature
                    @ (be32 13 @ ascii ''IHDR'' @ (be32 w @ be32 h @ [8, 2, 0, 0, 0])
                         @ be32 (zlib_crc32 (ascii ''IHDR'' @ be32 w @ be32 h @ [8, 2, 0, 0, 0])))
                    @ (be32 (int (length (zc raw 9))) @ ascii ''IDAT'' @ zc raw 9
                         @ be32 (zlib_crc32 (ascii ''IDAT'' @ zc raw 9)))
                    @ (be32 0 @ ascii ''IEND'' @ be32 (zlib_crc32 (ascii ''IEND''))))
             else Inl StructError)
      else Inl StructError)"
  unfolding create_png_def struct_pack_ihdr create_chunk_eq Let_def
  by (simp add: length_be32 split: sum.splits)

lemma read_chunks_last:
  "length data < 2 ^ 32 \<Longrightarrow> length ty = 4 \<Longrightarrow>
     read_chunks (be32 (int (length data)) @ ty @ data @ be32 (zlib_crc32 (ty @ data))) = Some [(ty, data)]"
  using read_chunks_frame [of data ty "[]"] by simp

lemma read_png_stream:
  assumes p: "length p < 2 ^ 32" and z: "length z < 2 ^ 32"
  shows "read_png (png_signature
                    @ (be32 (int (length p)) @ ascii ''IHDR'' @ p @ be32 (zlib_crc32 (ascii ''IHDR'' @ p)))
                    @ (be32 (int (length z)) @ ascii ''IDAT'' @ z @ be32 (zlib_crc32 (ascii ''IDAT'' @ z)))
                    @ (be32 0 @ ascii ''IEND'' @ be32 (zlib_crc32 (ascii ''IEND''))))
           = Some [(ascii ''IHDR'', p), (ascii ''IDAT'', z), (ascii ''IEND'', [])]"
proof -
  have e: "read_chunks (be32 0 @ ascii ''IEND'' @ be32 (zlib_crc32 (ascii ''IEND''))) = Some [(ascii ''IEND'', [])]"
    using read_chunks_last [of "[]" "ascii ''IEND''"] by (simp add: length_chunk_types)
  have d: "read_chunks (be32 (int (length z)) @ ascii ''IDAT'' @ z @ be32 (zlib_crc32 (ascii ''IDAT'' @ z))
                         @ be32 0 @ ascii ''IEND'' @ be32 (zlib_crc32 (ascii ''IEND'')))
             = Some [(ascii ''IDAT'', z), (ascii ''IEND'', [])]"
    using read_chunks_frame [OF z length_chunk_types(2)] e by simp
  have h: "read_chunks (be32 (int (length p)) @ ascii ''IHDR'' @ p @ be32 (zlib_crc32 (ascii ''IHDR'' @ p))
                         @ be32 (int (length z)) @ ascii ''IDAT'' @ z @ be32 (zlib_crc32 (ascii ''IDAT'' @ z))
                         @ be32 0 @ ascii ''IEND'' @ be32 (zlib_crc32 (ascii ''IEND'')))
             = Some [(ascii ''IHDR'', p), (ascii ''IDAT'', z), (ascii ''IEND'', [])]"
    using read_chunks_frame [OF p length_chunk_types(1)] d by simp
  show ?thesis
    unfolding read_png_def using h by (simp add: length_png_signature)
qed

text \<open>Where \<open>create_png\<close> returns a stream.\<close>

lemma create_png_returns:
  assumes "0 \<le> w" and "w < 2 ^ 32" and "0 \<le> h" and "h < 2 ^ 32"
    and "list_all (\<lambda>c. 0 \<le> c \<and> c < 256) bg"
    and "\<forall>raw. image_data w h bg = Inr raw \<longrightarrow> length (zc raw 9) < 2 ^ 32"
  shows "\<exists>png. create_png zc w h bg t = Inr png"
  using assms unfolding create_png_eq
  by (simp add: image_data_valid)

lemma create_png_Inr:
  assumes "create_png zc w h bg t = Inr png"
  shows "(0 \<le> w \<and> w < 2 ^ 32) \<and> (0 \<le> h \<and> h < 2 ^ 32)
         \<and> (\<exists>raw. image_data w h bg = Inr raw \<and> length (zc raw 9) < 2 ^ 32
              \<and> png = png_signature
                    @ (be32 13 @ ascii ''IHDR'' @ (be32 w @ be32 h @ [8, 2, 0, 0, 0])
                         @ be32 (zlib_crc32 (ascii ''IHDR'' @ be32 w @ be32 h @ [8, 2, 0, 0, 0])))
                    @ (be32 (int (length (zc raw 9))) @ ascii ''IDAT'' @ zc raw 9
                         @ be32 (zlib_crc32 (ascii ''IDAT'' @ zc raw 9)))
                    @ (be32 0 @ ascii ''IEND'' @ be32 (zlib_crc32 (ascii ''IEND''))))"
  using assms unfolding create_png_eq by (auto split: if_splits sum.splits)

section \<open>Chunk framing\<close>

text \<open>
  Claim C2 as stated, for every payload, does not hold: a payload of \<open>2 ^ 32\<close> bytes has no
  32-bit length, \<open>struct.pack('>I', len(data))\<close> raises \<open>struct.error\<close> and \<open>create_chunk\<close>
  returns no chunk.
\<close>

theorem create_chunk_long_payload_counterexample:
  "create_chunk (ascii ''IDAT'') (replicate (2 ^ 32) 0) = Inl StructError"
  by (simp add: create_chunk_eq)

text \<open>
  Claim C2, for payloads shorter than \<open>2 ^ 32\<close> bytes. For a 4-byte chunk type and such a
  payload, \<open>create_chunk\<close> returns the big-endian 32-bit length of the payload, the type, the
  payload, and the big-endian 32-bit CRC-32 of type and payload, 12 bytes more than the
  payload. Read back, the length field is the number of payload bytes, the CRC field is the
  CRC-32 of type and payload, and the bytes are one well-formed chunk.
\<close>

theorem create_chunk_framing:
  assumes "length data < 2 ^ 32" and "length chunk_type = 4"
  shows "\<exists>r. create_chunk chunk_type data = Inr r
           \<and> r = be32 (int (length data)) @ chunk_type @ data @ be32 (zlib_crc32 (chunk_type @ data))
           \<and> length r = 12 + length data
           \<and> from_be (take 4 r) = int (length data)
           \<and> take 4 (drop 4 r) = chunk_type
           \<and> take (length data) (drop 8 r) = data
           \<and> from_be (drop (8 + length data) r) = zlib_crc32 (chunk_type @ data)
           \<and> read_chunks r = Some [(chunk_type, data)]"
proof -
  let ?r = "be32 (int (length data)) @ chunk_type @ data @ be32 (zlib_crc32 (chunk_type @ data))"
  have 1: "create_chunk chunk_type data = Inr ?r"
    using assms(1) by (simp add: create_chunk_eq)
  have 2: "length ?r = 12 + length data"
    using assms(2) by (simp add: length_be32)
  have 3: "from_be (take 4 ?r) = int (length data)"
    using int_length_bound [OF assms(1)] by (simp add: length_be32 from_be_be32)
  have 4: "take 4 (drop 4 ?r) = chunk_type"
    using assms(2) by (simp add: length_be32)
  have 5: "take (length data) (drop 8 ?r) = data"
    using assms(2) by (simp add: length_be32)
  have 6: "from_be (drop (8 + length data) ?r) = zlib_crc32 (chunk_type @ data)"
    using assms(2) zlib_crc32_range [of "chunk_type @ data"] by (simp add: length_be32 from_be_be32)
  have 7: "read_chunks ?r = Some [(chunk_type, data)]"
    using read_chunks_frame [OF assms, of "[]"] by simp
  from 1 2 3 4 5 6 7 show ?thesis by blast
qed

theorem create_chunk_framing_witness:
  "length ([] :: bytes) < 2 ^ 32 \<and> length (ascii ''IEND'') = 4
   \<and> create_chunk (ascii ''IEND'') [] = Inr [0, 0, 0, 0, 0x49, 0x45, 0x4E, 0x44, 0xAE, 0x42, 0x60, 0x82]
   \<and> read_chunks [0, 0, 0, 0, 0x49, 0x45, 0x4E, 0x44, 0xAE, 0x42, 0x60, 0x82] = Some [(ascii ''IEND'', [])]"
proof -
  have h: "length ([] :: bytes) < 2 ^ 32" "length (ascii ''IEND'') = 4"
    by (simp_all add: ascii_def)
  have c: "create_chunk (ascii ''IEND'') [] = Inr [0, 0, 0, 0, 0x49, 0x45, 0x4E, 0x44, 0xAE, 0x42, 0x60, 0x82]"
    by code_simp
  from create_chunk_framing [OF h] obtain r where
    r: "create_chunk (ascii ''IEND'') [] = Inr r" "read_chunks r = Some [(ascii ''IEND'', [])]"
    by blast
  from r(1) c have "r = [0, 0, 0, 0, 0x49, 0x45, 0x4E, 0x44, 0xAE, 0x42, 0x60, 0x82]"
    by simp
  with r(2) c h show ?thesis by blast
qed

section \<open>The unused parameter\<close>

text \<open>
  Claim C9. The result of \<open>create_png\<close> does not depend on \<open>text_color\<close>: two calls that
  differ in this argument only give the same result. The default of the parameter is
  (33, 150, 243).
\<close>

theorem text_color_unused:
  "create_png compress width height bg_color t1 = create_png compress width height bg_color t2
   \<and> default_text_color = [33, 150, 243]"
  by (simp add: create_png_def default_text_color_def)

section \<open>The header chunk\<close>

text \<open>
  Claim C4. For a width and a height that the header encoding accepts (from 0 to
  \<open>2 ^ 32 - 1\<close>), the IHDR payload is 13 bytes: the width and the height as 32-bit big-endian
  numbers, then the bytes 8, 2, 0, 0, 0 (bit depth, colour type, compression, filter and
  interlace method). \<open>create_chunk\<close> frames it under the type \<open>IHDR\<close>, and the framed chunk
  follows the signature in every stream that \<open>create_png\<close> returns for these dimensions.
\<close>

theorem ihdr_chunk_layout:
  assumes "0 \<le> width" and "width < 2 ^ 32" and "0 \<le> height" and "height < 2 ^ 32"
  shows "\<exists>payload chunk.
           struct_pack [FmtI, FmtI, FmtB, FmtB, FmtB, FmtB, FmtB] [width, height, 8, 2, 0, 0, 0]
             = Inr payload
         \<and> payload = be32 width @ be32 height @ [8, 2, 0, 0, 0]
         \<and> length payload = 13
         \<and> from_be (take 4 payload) = width
         \<and> from_be (take 4 (drop 4 payload)) = height
         \<and> drop 8 payload = [8, 2, 0, 0, 0]
         \<and> create_chunk (ascii ''IHDR'') payload = Inr chunk
         \<and> chunk = be32 13 @ ascii ''IHDR'' @ payload @ be32 (zlib_crc32 (ascii ''IHDR'' @ payload))
         \<and> (\<forall>compress bg_color text_color png.
               create_png compress width height bg_color text_color = Inr png
               \<longrightarrow> take 33 png = png_signature @ chunk)"
proof -
  let ?p = "be32 width @ be32 height @ [8, 2, 0, 0, 0]"
  let ?c = "be32 13 @ ascii ''IHDR'' @ ?p @ be32 (zlib_crc32 (ascii ''IHDR'' @ ?p))"
  have 1: "struct_pack [FmtI, FmtI, FmtB, FmtB, FmtB, FmtB, FmtB] [width, height, 8, 2, 0, 0, 0] = Inr ?p"
    unfolding struct_pack_ihdr using assms by simp
  have 2: "length ?p = 13" by (simp add: length_be32)
  have 3: "from_be (take 4 ?p) = width"
    using assms by (simp add: length_be32 from_be_be32)
  have 4: "from_be (take 4 (drop 4 ?p)) = height"
    using assms by (simp add: length_be32 from_be_be32)
  have 5: "drop 8 ?p = [8, 2, 0, 0, 0]" by (simp add: length_be32)
  have 6: "create_chunk (ascii ''IHDR'') ?p = Inr ?c"
    unfolding create_chunk_eq by (simp add: length_be32)
  have 7: "take 33 png = png_signature @ ?c"
    if "create_png compress width height bg_color text_color = Inr png"
    for compress bg_color text_color png
    using create_png_Inr [OF that]
    by (auto simp: length_be32 length_png_signature length_chunk_types)
  from 1 2 3 4 5 6 7 show ?thesis by blast
qed

theorem ihdr_chunk_layout_witness:
  "(0::int) \<le> 2 \<and> (2::int) < 2 ^ 32
   \<and> struct_pack [FmtI, FmtI, FmtB, FmtB, FmtB, FmtB, FmtB] [2, 2, 8, 2, 0, 0, 0]
        = Inr [0, 0, 0, 2, 0, 0, 0, 2, 8, 2, 0, 0, 0]
   \<and> create_chunk (ascii ''IHDR'') [0, 0, 0, 2, 0, 0, 0, 2, 8, 2, 0, 0, 0]
        = Inr [0, 0, 0, 13, 73, 72, 68, 82, 0, 0, 0, 2, 0, 0, 0, 2, 8, 2, 0, 0, 0, 253, 212, 154, 115]
   \<and> (\<exists>png. create_png store_compress 2 2 [255, 107, 107] [33, 150, 243] = Inr png
          \<and> take 33 png = [137, 80, 78, 71, 13, 10, 26, 10,
                             0, 0, 0, 13, 73, 72, 68, 82, 0, 0, 0, 2, 0, 0, 0, 2, 8, 2, 0, 0, 0,
                             253, 212, 154, 115])"
proof -
  have h: "(0::int) \<le> 2" "(2::int) < 2 ^ 32" by simp_all
  have p: "be32 2 @ be32 2 @ [8, 2, 0, 0, 0] = [0, 0, 0, 2, 0, 0, 0, 2, 8, 2, 0, 0, 0]"
    by (simp add: be32_def)
  have s: "png_signature = [137, 80, 78, 71, 13, 10, 26, 10]"
    by (simp add: png_signature_def ascii_def)
  have c: "create_chunk (ascii ''IHDR'') [0, 0, 0, 2, 0, 0, 0, 2, 8, 2, 0, 0, 0]
        = Inr [0, 0, 0, 13, 73, 72, 68, 82, 0, 0, 0, 2, 0, 0, 0, 2, 8, 2, 0, 0, 0, 253, 212, 154, 115]"
    by code_simp
  have g: "\<exists>png. create_png store_compress 2 2 [255, 107, 107] [33, 150, 243] = Inr png"
    by (simp add: create_png_eq image_data_valid length_concat_replicate store_compress_def)
  then obtain png where png: "create_png store_compress 2 2 [255, 107, 107] [33, 150, 243] = Inr png" ..
  from ihdr_chunk_layout [OF h(1) h(2) h(1) h(2)] obtain payload chunk where
    1: "struct_pack [FmtI, FmtI, FmtB, FmtB, FmtB, FmtB, FmtB] [2, 2, 8, 2, 0, 0, 0] = Inr payload"
    and 2: "payload = be32 2 @ be32 2 @ [8, 2, 0, 0, 0]"
    and 3: "create_chunk (ascii ''IHDR'') payload = Inr chunk"
    and 4: "\<forall>compress bg_color text_color png.
               create_png compress 2 2 bg_color text_color = Inr png
               \<longrightarrow> take 33 png = png_signature @ chunk"
    by blast
  from 2 p have 5: "payload = [0, 0, 0, 2, 0, 0, 0, 2, 8, 2, 0, 0, 0]" by simp
  from 3 5 c have 6: "chunk = [0, 0, 0, 13, 73, 72, 68, 82, 0, 0, 0, 2, 0, 0, 0, 2, 8, 2, 0, 0, 0, 253, 212, 154, 115]"
    by simp
  from 4 png have "take 33 png = png_signature @ chunk" by blast
  with s 6 have 7: "take 33 png = [137, 80, 78, 71, 13, 10, 26, 10,
                             0, 0, 0, 13, 73, 72, 68, 82, 0, 0, 0, 2, 0, 0, 0, 2, 8, 2, 0, 0, 0,
                             253, 212, 154, 115]"
    by simp
  from h 1 5 c png 7 show ?thesis by blast
qed

section \<open>The stream as a whole\<close>

text \<open>
  Claim C3. Whatever the width, the height and the background colour, a byte sequence
  returned by \<open>create_png\<close> is the 8-byte signature, the IHDR chunk, one IDAT chunk whose
  payload is the raw image buffer compressed at level 9, and the IEND chunk with an empty
  payload, in this order and with nothing else: read back, the stream has exactly these
  three chunks.
\<close>

theorem create_png_stream:
  assumes "create_png compress width height bg_color text_color = Inr png"
  shows "\<exists>ihdr_chunk raw idat_chunk iend_chunk.
           create_chunk (ascii ''IHDR'') (be32 width @ be32 height @ [8, 2, 0, 0, 0]) = Inr ihdr_chunk
         \<and> image_data width height bg_color = Inr raw
         \<and> create_chunk (ascii ''IDAT'') (compress raw 9) = Inr idat_chunk
         \<and> create_chunk (ascii ''IEND'') [] = Inr iend_chunk
         \<and> png = png_signature @ ihdr_chunk @ idat_chunk @ iend_chunk
         \<and> png_signature = [0x89, 0x50, 0x4E, 0x47, 0x0D, 0x0A, 0x1A, 0x0A]
         \<and> read_png png = Some [(ascii ''IHDR'', be32 width @ be32 height @ [8, 2, 0, 0, 0]),
                                 (ascii ''IDAT'', compress raw 9), (ascii ''IEND'', [])]"
proof -
  let ?p = "be32 width @ be32 height @ [8, 2, 0, 0, 0]"
  from create_png_Inr [OF assms] obtain raw where
    raw: "image_data width height bg_color = Inr raw" and
    z: "length (compress raw 9) < 2 ^ 32" and
    png: "png = png_signature
                @ (be32 13 @ ascii ''IHDR'' @ ?p @ be32 (zlib_crc32 (ascii ''IHDR'' @ ?p)))
                @ (be32 (int (length (compress raw 9))) @ ascii ''IDAT'' @ compress raw 9
                     @ be32 (zlib_crc32 (ascii ''IDAT'' @ compress raw 9)))
                @ (be32 0 @ ascii ''IEND'' @ be32 (zlib_crc32 (ascii ''IEND'')))"
    by auto
  have lp: "length ?p < 2 ^ 32" "int (length ?p) = 13" by (simp_all add: length_be32)
  have 1: "create_chunk (ascii ''IHDR'') ?p
             = Inr (be32 13 @ ascii ''IHDR'' @ ?p @ be32 (zlib_crc32 (ascii ''IHDR'' @ ?p)))"
    unfolding create_chunk_eq by (simp add: length_be32)
  have 2: "create_chunk (ascii ''IDAT'') (compress raw 9)
             = Inr (be32 (int (length (compress raw 9))) @ ascii ''IDAT'' @ compress raw 9
                     @ be32 (zlib_crc32 (ascii ''IDAT'' @ compress raw 9)))"
    unfolding create_chunk_eq using z by simp
  have 3: "create_chunk (ascii ''IEND'') [] = Inr (be32 0 @ ascii ''IEND'' @ be32 (zlib_crc32 (ascii ''IEND'')))"
    unfolding create_chunk_eq by simp
  have 4: "png_signature = [0x89, 0x50, 0x4E, 0x47, 0x0D, 0x0A, 0x1A, 0x0A]"
    by (simp add: png_signature_def ascii_def)
  have 5: "read_png png = Some [(ascii ''IHDR'', ?p), (ascii ''IDAT'', compress raw 9), (ascii ''IEND'', [])]"
    using read_png_stream [OF lp(1) z] unfolding png lp(2) .
  from 1 raw 2 3 png 4 5 show ?thesis by blast
qed

theorem create_png_stream_witness:
  "create_png store_compress 2 2 [255, 107, 107] [33, 150, 243]
     = Inr [137, 80, 78, 71, 13, 10, 26, 10,
            0, 0, 0, 13, 73, 72, 68, 82, 0, 0, 0, 2, 0, 0, 0, 2, 8, 2, 0, 0, 0, 253, 212, 154, 115,
            0, 0, 0, 14, 73, 68, 65, 84,
            0, 255, 107, 107, 255, 107, 107, 0, 255, 107, 107, 255, 107, 107, 46, 243, 129, 94,
            0, 0, 0, 0, 73, 69, 78, 68, 174, 66, 96, 130]
   \<and> read_png [137, 80, 78, 71, 13, 10, 26, 10,
            0, 0, 0, 13, 73, 72, 68, 82, 0, 0, 0, 2, 0, 0, 0, 2, 8, 2, 0, 0, 0, 253, 212, 154, 115,
            0, 0, 0, 14, 73, 68, 65, 84,
            0, 255, 107, 107, 255, 107, 107, 0, 255, 107, 107, 255, 107, 107, 46, 243, 129, 94,
            0, 0, 0, 0, 73, 69, 78, 68, 174, 66, 96, 130]
       = Some [([73, 72, 68, 82], [0, 0, 0, 2, 0, 0, 0, 2, 8, 2, 0, 0, 0]),
               ([73, 68, 65, 84], [0, 255, 107, 107, 255, 107, 107, 0, 255, 107, 107, 255, 107, 107]),
               ([73, 69, 78, 68], [])]"
proof -
  have c: "create_png store_compress 2 2 [255, 107, 107] [33, 150, 243]
     = Inr [137, 80, 78, 71, 13, 10, 26, 10,
            0, 0, 0, 13, 73, 72, 68, 82, 0, 0, 0, 2, 0, 0, 0, 2, 8, 2, 0, 0, 0, 253, 212, 154, 115,
            0, 0, 0, 14, 73, 68, 65, 84,
            0, 255, 107, 107, 255, 107, 107, 0, 255, 107, 107, 255, 107, 107, 46, 243, 129, 94,
            0, 0, 0, 0, 73, 69, 78, 68, 174, 66, 96, 130]"
    by code_simp
  have r: "image_data 2 2 [255, 107, 107]
             = Inr [0, 255, 107, 107, 255, 107, 107, 0, 255, 107, 107, 255, 107, 107]"
    by code_simp
  have p: "be32 2 @ be32 2 @ [8, 2, 0, 0, 0] = [0, 0, 0, 2, 0, 0, 0, 2, 8, 2, 0, 0, 0]"
    by (simp add: be32_def)
  have t: "ascii ''IHDR'' = [73, 72, 68, 82]" "ascii ''IDAT'' = [73, 68, 65, 84]"
    "ascii ''IEND'' = [73, 69, 78, 68]"
    by (simp_all add: ascii_def)
  from create_png_stream [OF c] r show ?thesis
    unfolding p t using c by (auto simp: store_compress_def)
qed

section \<open>The raw image buffer\<close>

lemma uint_channel: "0 \<le> c \<Longrightarrow> c < 256 \<Longrightarrow> uint (of_int c :: byte) = c"
  by (simp add: uint_word_of_int take_bit_int_eq_self)

text \<open>
  Claim C1. For a positive width and height and a background colour of three channels,
  each from 0 to 255, the raw image buffer built by \<open>create_png\<close> is \<open>height\<close> scanlines,
  each the filter byte 0 followed by \<open>width\<close> copies of the three colour bytes, so it has
  \<open>height * (1 + 3 * width)\<close> bytes. Every scanline read from it starts with the filter byte
  0 and every pixel is the requested colour. When the stream is returned, its IDAT payload
  decompresses to this buffer, for any compressor with a decompressor that inverts it.
\<close>

theorem raw_image_buffer:
  assumes w: "0 < width" and h: "0 < height"
    and bg: "bg_color = [r, g, b]"
    and ch: "list_all (\<lambda>c. 0 \<le> c \<and> c < 256) bg_color"
  shows "\<exists>raw. image_data width height bg_color = Inr raw
         \<and> raw = concat (replicate (nat height)
                     (0 # concat (replicate (nat width) [of_int r, of_int g, of_int b])))
         \<and> length raw = nat height * (1 + 3 * nat width)
         \<and> (\<forall>y < nat height. filter_byte raw (nat width) y = [0]
               \<and> (\<forall>x < nat width. map uint (pixel raw (nat width) y x) = bg_color))
         \<and> (\<forall>compress decompress text_color png.
               (\<forall>xs. decompress (compress xs 9) = Some xs)
               \<longrightarrow> create_png compress width height bg_color text_color = Inr png
               \<longrightarrow> (\<exists>z. read_png png = Some [(ascii ''IHDR'', be32 width @ be32 height @ [8, 2, 0, 0, 0]),
                                               (ascii ''IDAT'', z), (ascii ''IEND'', [])]
                        \<and> decompress z = Some raw))"
proof -
  let ?px = "[of_int r, of_int g, of_int b] :: bytes"
  let ?raw = "concat (replicate (nat height) (0 # concat (replicate (nat width) ?px)))"
  have 1: "image_data width height bg_color = Inr ?raw"
    using image_data_valid [OF ch, of width height] bg by simp
  have 2: "length ?raw = nat height * (1 + 3 * nat width)"
    by (simp add: length_concat_replicate)
  have u: "map uint ?px = bg_color"
    using ch bg by (simp add: uint_channel)
  have 3: "filter_byte ?raw (nat width) y = [0]
             \<and> (\<forall>x < nat width. map uint (pixel ?raw (nat width) y x) = bg_color)"
    if "y < nat height" for y
    using that u by (simp add: scanline_filter_byte scanline_pixel)
  have 4: "\<exists>z. read_png png = Some [(ascii ''IHDR'', be32 width @ be32 height @ [8, 2, 0, 0, 0]),
                                     (ascii ''IDAT'', z), (ascii ''IEND'', [])]
              \<and> decompress z = Some ?raw"
    if d: "\<forall>xs. decompress (compress xs 9) = Some xs"
      and c: "create_png compress width height bg_color text_color = Inr png"
    for compress decompress text_color png
  proof -
    from create_png_Inr [OF c] 1 have z: "length (compress ?raw 9) < 2 ^ 32"
      and png: "png = png_signature
                @ (be32 13 @ ascii ''IHDR'' @ (be32 width @ be32 height @ [8, 2, 0, 0, 0])
                     @ be32 (zlib_crc32 (ascii ''IHDR'' @ be32 width @ be32 height @ [8, 2, 0, 0, 0])))
                @ (be32 (int (length (compress ?raw 9))) @ ascii ''IDAT'' @ compress ?raw 9
                     @ be32 (zlib_crc32 (ascii ''IDAT'' @ compress ?raw 9)))
                @ (be32 0 @ ascii ''IEND'' @ be32 (zlib_crc32 (ascii ''IEND'')))"
      by auto
    have lp: "length (be32 width @ be32 height @ [8, 2, 0, 0, 0]) < 2 ^ 32"
      "int (length (be32 width @ be32 height @ [8, 2, 0, 0, 0])) = 13"
      by (simp_all add: length_be32)
    have "read_png png = Some [(ascii ''IHDR'', be32 width @ be32 height @ [8, 2, 0, 0, 0]),
                               (ascii ''IDAT'', compress ?raw 9), (ascii ''IEND'', [])]"
      using read_png_stream [OF lp(1) z] unfolding png lp(2) .
    with d show ?thesis by blast
  qed
  from 1 2 3 4 show ?thesis by blast
qed

theorem raw_image_buffer_witness:
  "(0::int) < 2 \<and> list_all (\<lambda>c. 0 \<le> c \<and> c < 256) [255, 107, 107 :: int]
   \<and> image_data 2 2 [255, 107, 107]
        = Inr [0, 255, 107, 107, 255, 107, 107, 0, 255, 107, 107, 255, 107, 107]
   \<and> map uint (pixel [0, 255, 107, 107, 255, 107, 107, 0, 255, 107, 107, 255, 107, 107] 2 1 1)
        = [255, 107, 107]
   \<and> (\<exists>png z. create_png store_compress 2 2 [255, 107, 107] [33, 150, 243] = Inr png
         \<and> read_png png = Some [(ascii ''IHDR'', be32 2 @ be32 2 @ [8, 2, 0, 0, 0]),
                                 (ascii ''IDAT'', z), (ascii ''IEND'', [])]
         \<and> Some z = Some [0, 255, 107, 107, 255, 107, 107, 0, 255, 107, 107, 255, 107, 107])"
proof -
  have h: "(0::int) < 2" "list_all (\<lambda>c. 0 \<le> c \<and> c < 256) [255, 107, 107 :: int]"
    by simp_all
  have r: "image_data 2 2 [255, 107, 107]
        = Inr [0, 255, 107, 107, 255, 107, 107, 0, 255, 107, 107, 255, 107, 107]"
    by code_simp
  have g: "\<exists>png. create_png store_compress 2 2 [255, 107, 107] [33, 150, 243] = Inr png"
    by (simp add: create_png_eq image_data_valid length_concat_replicate store_compress_def)
  then obtain png where png: "create_png store_compress 2 2 [255, 107, 107] [33, 150, 243] = Inr png" ..
  have d: "\<forall>xs. Some (store_compress xs 9) = Some xs"
    by (simp add: store_compress_def)
  from raw_image_buffer [OF h(1) h(1) refl h(2)] r obtain
    1: "\<forall>y < nat 2. filter_byte [0, 255, 107, 107, 255, 107, 107, 0, 255, 107, 107, 255, 107, 107] (nat 2) y = [0]
               \<and> (\<forall>x < nat 2. map uint (pixel [0, 255, 107, 107, 255, 107, 107, 0, 255, 107, 107, 255, 107, 107] (nat 2) y x) = [255, 107, 107])"
    and 2: "\<forall>compress decompress text_color png.
               (\<forall>xs. decompress (compress xs 9) = Some xs)
               \<longrightarrow> create_png compress 2 2 [255, 107, 107] text_color = Inr png
               \<longrightarrow> (\<exists>z. read_png png = Some [(ascii ''IHDR'', be32 2 @ be32 2 @ [8, 2, 0, 0, 0]),
                                               (ascii ''IDAT'', z), (ascii ''IEND'', [])]
                        \<and> decompress z = Some [0, 255, 107, 107, 255, 107, 107, 0, 255, 107, 107, 255, 107, 107])"
    by auto
  from 1 have 3: "map uint (pixel [0, 255, 107, 107, 255, 107, 107, 0, 255, 107, 107, 255, 107, 107] 2 1 1)
        = [255, 107, 107]"
    by simp
  from 2 [rule_format, of Some store_compress "[33, 150, 243]" png] d png obtain z where
    "read_png png = Some [(ascii ''IHDR'', be32 2 @ be32 2 @ [8, 2, 0, 0, 0]),
                                 (ascii ''IDAT'', z), (ascii ''IEND'', [])]"
    "Some z = Some [0, 255, 107, 107, 255, 107, 107, 0, 255, 107, 107, 255, 107, 107]"
    by blast
  with h r 3 png show ?thesis by blast
qed

section \<open>A dimension of zero\<close>

text \<open>
  Claim C10 as stated, for every non-negative dimension, does not hold: a height of \<open>2 ^ 32\<close>
  is not negative, but the header encoding refuses it, and with width 0 \<open>create_png\<close> raises
  \<open>struct.error\<close> at line 20.
\<close>

theorem create_png_huge_height_counterexample:
  "create_png store_compress 0 (2 ^ 32) [255, 107, 107] [33, 150, 243] = Inl StructError"
  by (simp add: create_png_eq)

text \<open>
  Claim C10, for dimensions below \<open>2 ^ 32\<close>. When the width or the height is 0 and both are
  from 0 to \<open>2 ^ 32 - 1\<close>, \<open>create_png\<close> returns a stream, whatever the colour argument is,
  provided the compressed buffer is shorter than \<open>2 ^ 32\<close> bytes. The raw image buffer is
  \<open>height\<close> filter bytes and no pixel data (empty when the height is 0); the stream reads back
  as the three chunks IHDR, IDAT and IEND with correct lengths and CRCs, the IHDR records
  the dimensions given, and the IDAT payload is the compression of that buffer.
\<close>

theorem create_png_zero_dimension:
  assumes "width = 0 \<or> height = 0"
    and "0 \<le> width" and "width < 2 ^ 32" and "0 \<le> height" and "height < 2 ^ 32"
    and "length (compress (replicate (nat height) 0) 9) < 2 ^ 32"
  shows "\<exists>png. create_png compress width height bg_color text_color = Inr png
         \<and> image_data width height bg_color = Inr (replicate (nat height) 0)
         \<and> read_png png = Some [(ascii ''IHDR'', be32 width @ be32 height @ [8, 2, 0, 0, 0]),
                                 (ascii ''IDAT'', compress (replicate (nat height) 0) 9),
                                 (ascii ''IEND'', [])]
         \<and> from_be (be32 width) = width \<and> from_be (be32 height) = height"
proof -
  let ?raw = "replicate (nat height) (0::byte)"
  let ?p = "be32 width @ be32 height @ [8, 2, 0, 0, 0]"
  let ?png = "png_signature
                @ (be32 13 @ ascii ''IHDR'' @ ?p @ be32 (zlib_crc32 (ascii ''IHDR'' @ ?p)))
                @ (be32 (int (length (compress ?raw 9))) @ ascii ''IDAT'' @ compress ?raw 9
                     @ be32 (zlib_crc32 (ascii ''IDAT'' @ compress ?raw 9)))
                @ (be32 0 @ ascii ''IEND'' @ be32 (zlib_crc32 (ascii ''IEND'')))"
  have 1: "image_data width height bg_color = Inr ?raw"
    using assms(1,2,4) by (intro image_data_empty) auto
  have 2: "create_png compress width height bg_color text_color = Inr ?png"
    unfolding create_png_eq 1 using assms by simp
  have lp: "length ?p < 2 ^ 32" "int (length ?p) = 13" by (simp_all add: length_be32)
  have 3: "read_png ?png = Some [(ascii ''IHDR'', ?p), (ascii ''IDAT'', compress ?raw 9), (ascii ''IEND'', [])]"
    using read_png_stream [OF lp(1) assms(6)] unfolding lp(2) .
  have 4: "from_be (be32 width) = width" "from_be (be32 height) = height"
    using assms by (simp_all add: from_be_be32)
  from 1 2 3 4 show ?thesis by blast
qed

theorem create_png_zero_dimension_witness:
  "((0::int) = 0 \<or> (3::int) = 0) \<and> (0::int) \<le> 3 \<and> (3::int) < 2 ^ 32
   \<and> length (store_compress (replicate (nat 3) (0::byte)) 9) < 2 ^ 32
   \<and> create_png store_compress 0 3 [255, 107, 107] [33, 150, 243]
        = Inr [137, 80, 78, 71, 13, 10, 26, 10,
               0, 0, 0, 13, 73, 72, 68, 82, 0, 0, 0, 0, 0, 0, 0, 3, 8, 2, 0, 0, 0, 50, 125, 153, 235,
               0, 0, 0, 3, 73, 68, 65, 84, 0, 0, 0, 249, 202, 78, 162,
               0, 0, 0, 0, 73, 69, 78, 68, 174, 66, 96, 130]
   \<and> image_data 0 3 [255, 107, 107] = Inr [0, 0, 0]
   \<and> read_png [137, 80, 78, 71, 13, 10, 26, 10,
               0, 0, 0, 13, 73, 72, 68, 82, 0, 0, 0, 0, 0, 0, 0, 3, 8, 2, 0, 0, 0, 50, 125, 153, 235,
               0, 0, 0, 3, 73, 68, 65, 84, 0, 0, 0, 249, 202, 78, 162,
               0, 0, 0, 0, 73, 69, 78, 68, 174, 66, 96, 130]
        = Some [([73, 72, 68, 82], [0, 0, 0, 0, 0, 0, 0, 3, 8, 2, 0, 0, 0]),
                ([73, 68, 65, 84], [0, 0, 0]), ([73, 69, 78, 68], [])]"
proof -
  have h: "(0::int) = 0 \<or> (3::int) = 0" "(0::int) \<le> 0" "(0::int) < 2 ^ 32" "(0::int) \<le> 3" "(3::int) < 2 ^ 32"
    "length (store_compress (replicate (nat 3) (0::byte)) 9) < 2 ^ 32"
    by (simp_all add: store_compress_def)
  have c: "create_png store_compress 0 3 [255, 107, 107] [33, 150, 243]
        = Inr [137, 80, 78, 71, 13, 10, 26, 10,
               0, 0, 0, 13, 73, 72, 68, 82, 0, 0, 0, 0, 0, 0, 0, 3, 8, 2, 0, 0, 0, 50, 125, 153, 235,
               0, 0, 0, 3, 73, 68, 65, 84, 0, 0, 0, 249, 202, 78, 162,
               0, 0, 0, 0, 73, 69, 78, 68, 174, 66, 96, 130]"
    by code_simp
  have e: "replicate (nat 3) (0::byte) = [0, 0, 0]" by (simp add: eval_nat_numeral)
  have p: "be32 0 @ be32 3 @ [8, 2, 0, 0, 0] = [0, 0, 0, 0, 0, 0, 0, 3, 8, 2, 0, 0, 0]"
    by (simp add: be32_def)
  have t: "ascii ''IHDR'' = [73, 72, 68, 82]" "ascii ''IDAT'' = [73, 68, 65, 84]"
    "ascii ''IEND'' = [73, 69, 78, 68]"
    by (simp_all add: ascii_def)
  from create_png_zero_dimension
         [where compress = store_compress and width = 0 and height = 3
            and bg_color = "[255, 107, 107]" and text_color = "[33, 150, 243]"] h c
  show ?thesis unfolding e p t by (auto simp: store_compress_def)
qed

section \<open>The driver\<close>

lemma print_fields:
  "print l w = (r, w') \<Longrightarrow>
     files w' = files w \<and> dirs w' = dirs w \<and> fault w' = fault w
     \<and> print_fault w' = print_fault w \<and> flush_fails w' = flush_fails w"
  by (auto simp: print_def split: option.splits)

lemma print_lines_fields:
  "print_lines ls w = (r, w') \<Longrightarrow>
     files w' = files w \<and> dirs w' = dirs w \<and> fault w' = fault w
     \<and> print_fault w' = print_fault w \<and> flush_fails w' = flush_fails w"
proof (induction ls arbitrary: w)
  case Nil
  then show ?case by simp
next
  case (Cons l ls)
  obtain r1 w1 where p: "print l w = (r1, w1)" by (cases "print l w")
  note f = print_fields [OF p]
  show ?case
  proof (cases r1)
    case (Inl e)
    with Cons.prems p f show ?thesis by simp
  next
    case (Inr u)
    with Cons.prems p have "print_lines ls w1 = (r, w')" by simp
    from Cons.IH [OF this] f show ?thesis by simp
  qed
qed

lemma print_ok:
  "print_fault w l = None \<Longrightarrow> print l w = (Inr (), w\<lparr>stdout := stdout w @ [l]\<rparr>)"
  by (simp add: print_def)

lemma print_lines_ok:
  "\<forall>l \<in> set ls. print_fault w l = None \<Longrightarrow>
     print_lines ls w = (Inr (), w\<lparr>stdout := stdout w @ ls\<rparr>)"
  by (induction ls arbitrary: w) (simp_all add: print_ok)

lemma print_lines_refused:
  "print_fault w l = Some e \<Longrightarrow> print_lines (l # ls) w = (Inl e, w)"
  by (simp add: print_def)

lemma os_makedirs_Inr:
  "os_makedirs p w = (Inr u, w') \<Longrightarrow> w' = w\<lparr>dirs := dirs w \<union> set (path_prefixes p)\<rparr>"
  by (auto simp: os_makedirs_def split: option.splits if_splits)

lemma os_makedirs_fields:
  "os_makedirs p w = (r, w') \<Longrightarrow>
     files w' = files w \<and> fault w' = fault w \<and> print_fault w' = print_fault w
     \<and> flush_fails w' = flush_fails w"
  by (auto simp: os_makedirs_def split: option.splits if_splits)

lemma write_file_Inr:
  "write_file p data w = (Inr u, w') \<Longrightarrow> w' = w\<lparr>files := (files w)(p \<mapsto> data)\<rparr>"
  by (auto simp: write_file_def open_wb_def file_write_def split: option.splits if_splits)

lemma write_file_fields:
  "write_file p data w = (r, w') \<Longrightarrow>
     fault w' = fault w \<and> print_fault w' = print_fault w \<and> flush_fails w' = flush_fails w"
  by (auto simp: write_file_def open_wb_def file_write_def split: option.splits if_splits)

lemma print_Inr:
  "print l w = (Inr u, w') \<Longrightarrow> w' = w\<lparr>stdout := stdout w @ [l]\<rparr>"
  by (auto simp: print_def split: option.splits)

lemma icon_step_Inr:
  assumes "icon_step zc (d, s) w = (Inr u, w')"
  shows "\<exists>png. create_png zc s s default_bg_color default_text_color = Inr png
           \<and> files w' = (files w)
                (path_join (path_join base_path (''mipmap-'' @ d)) ''ic_launcher.png'' \<mapsto> png,
                 path_join (path_join base_path (''mipmap-'' @ d)) ''ic_launcher_round.png'' \<mapsto> png)"
  using assms unfolding icon_step_def Let_def
  by (auto split: sum.splits prod.splits
        dest!: os_makedirs_Inr write_file_Inr print_Inr)

lemma icon_step_fields:
  assumes "icon_step zc e w = (r, w')"
  shows "fault w' = fault w \<and> print_fault w' = print_fault w \<and> flush_fails w' = flush_fails w"
proof -
  obtain d s where e: "e = (d, s)" by (cases e)
  let ?D = "path_join base_path (''mipmap-'' @ d)"
  let ?L = "path_join ?D ''ic_launcher.png''"
  let ?R = "path_join ?D ''ic_launcher_round.png''"
  obtain r1 w1 where m: "os_makedirs ?D w = (r1, w1)" by (cases "os_makedirs ?D w")
  note f1 = os_makedirs_fields [OF m]
  show ?thesis
  proof (cases r1)
    case (Inl x)
    with assms e m f1 show ?thesis by (simp add: icon_step_def)
  next
    case r1: (Inr u1)
    show ?thesis
    proof (cases "create_png zc s s default_bg_color default_text_color")
      case (Inl x)
      with assms e m r1 f1 show ?thesis by (simp add: icon_step_def)
    next
      case c: (Inr png)
      obtain r2 w2 where a: "write_file ?L png w1 = (r2, w2)" by (cases "write_file ?L png w1")
      note f2 = write_file_fields [OF a]
      show ?thesis
      proof (cases r2)
        case (Inl x)
        with assms e m r1 c a f1 f2 show ?thesis by (simp add: icon_step_def)
      next
        case r2: (Inr u2)
        obtain r3 w3 where p: "print (MsgCreated ?L s) w2 = (r3, w3)"
          by (cases "print (MsgCreated ?L s) w2")
        note f3 = print_fields [OF p]
        show ?thesis
        proof (cases r3)
          case (Inl x)
          with assms e m r1 c a r2 p f1 f2 f3 show ?thesis by (simp add: icon_step_def)
        next
          case r3: (Inr u3)
          obtain r4 w4 where b: "write_file ?R png w3 = (r4, w4)" by (cases "write_file ?R png w3")
          note f4 = write_file_fields [OF b]
          show ?thesis
          proof (cases r4)
            case (Inl x)
            with assms e m r1 c a r2 p r3 b f1 f2 f3 f4 show ?thesis by (simp add: icon_step_def)
          next
            case r4: (Inr u4)
            with assms e m r1 c a r2 p r3 b have "print (MsgCreated ?R s) w4 = (r, w')"
              by (simp add: icon_step_def)
            from print_fields [OF this] f1 f2 f3 f4 show ?thesis by simp
          qed
        qed
      qed
    qed
  qed
qed

lemma icon_loop_fields:
  "icon_loop zc es w = (r, w') \<Longrightarrow>
     fault w' = fault w \<and> print_fault w' = print_fault w \<and> flush_fails w' = flush_fails w"
proof (induction es arbitrary: w)
  case Nil
  then show ?case by simp
next
  case (Cons e es)
  obtain r1 w1 where s: "icon_step zc e w = (r1, w1)" by (cases "icon_step zc e w")
  note f = icon_step_fields [OF s]
  show ?case
  proof (cases r1)
    case (Inl x)
    with Cons.prems s f show ?thesis by simp
  next
    case (Inr u)
    with Cons.prems s have "icon_loop zc es w1 = (r, w')" by simp
    from Cons.IH [OF this] f show ?thesis by simp
  qed
qed

lemma generate_all_icons_fields:
  assumes "generate_all_icons zc w = (r, w')"
  shows "fault w' = fault w \<and> print_fault w' = print_fault w \<and> flush_fails w' = flush_fails w"
proof -
  obtain r0 w0 where p: "print_lines [MsgGenerating, MsgRule] w = (r0, w0)"
    by (cases "print_lines [MsgGenerating, MsgRule] w")
  note f0 = print_lines_fields [OF p]
  show ?thesis
  proof (cases r0)
    case (Inl e)
    with assms p f0 show ?thesis by (simp add: generate_all_icons_def)
  next
    case r0: (Inr u)
    obtain r1 w1 where l: "icon_loop zc densities w0 = (r1, w1)"
      by (cases "icon_loop zc densities w0")
    note f1 = icon_loop_fields [OF l]
    show ?thesis
    proof (cases r1)
      case (Inl e)
      with assms p r0 l f0 f1 show ?thesis by (simp add: generate_all_icons_def)
    next
      case (Inr v)
      with assms p r0 l have
        "print_lines [MsgBlankRule, MsgComplete, MsgNote, MsgProduction, MsgRightClick,
                      MsgAdaptive, MsgConfigured] w1 = (r, w')"
        by (simp add: generate_all_icons_def)
      from print_lines_fields [OF this] f0 f1 show ?thesis by simp
    qed
  qed
qed

lemma icon_loop_Cons_Inr:
  "icon_loop zc (e # es) w = (Inr u, w') \<Longrightarrow>
     \<exists>w1. icon_step zc e w = (Inr (), w1) \<and> icon_loop zc es w1 = (Inr u, w')"
  by (auto split: prod.splits sum.splits)

lemma icon_loop_Cons_Inl:
  "icon_step zc e w = (Inl x, w1) \<Longrightarrow> icon_loop zc (e # es) w = (Inl x, w1)"
  by simp

lemma paths:
  "path_join base_path ''mipmap-mdpi'' = ''app/src/main/res/mipmap-mdpi''"
  "path_join ''app/src/main/res/mipmap-mdpi'' ''ic_launcher.png'' = ''app/src/main/res/mipmap-mdpi/ic_launcher.png''"
  "path_join ''app/src/main/res/mipmap-mdpi'' ''ic_launcher_round.png'' = ''app/src/main/res/mipmap-mdpi/ic_launcher_round.png''"
  "path_join base_path ''mipmap-hdpi'' = ''app/src/main/res/mipmap-hdpi''"
  "path_join ''app/src/main/res/mipmap-hdpi'' ''ic_launcher.png'' = ''app/src/main/res/mipmap-hdpi/ic_launcher.png''"
  "path_join ''app/src/main/res/mipmap-hdpi'' ''ic_launcher_round.png'' = ''app/src/main/res/mipmap-hdpi/ic_launcher_round.png''"
  "path_join base_path ''mipmap-xhdpi'' = ''app/src/main/res/mipmap-xhdpi''"
  "path_join ''app/src/main/res/mipmap-xhdpi'' ''ic_launcher.png'' = ''app/src/main/res/mipmap-xhdpi/ic_launcher.png''"
  "path_join ''app/src/main/res/mipmap-xhdpi'' ''ic_launcher_round.png'' = ''app/src/main/res/mipmap-xhdpi/ic_launcher_round.png''"
  "path_join base_path ''mipmap-xxhdpi'' = ''app/src/main/res/mipmap-xxhdpi''"
  "path_join ''app/src/main/res/mipmap-xxhdpi'' ''ic_launcher.png'' = ''app/src/main/res/mipmap-xxhdpi/ic_launcher.png''"
  "path_join ''app/src/main/res/mipmap-xxhdpi'' ''ic_launcher_round.png'' = ''app/src/main/res/mipmap-xxhdpi/ic_launcher_round.png''"
  "path_join base_path ''mipmap-xxxhdpi'' = ''app/src/main/res/mipmap-xxxhdpi''"
  "path_join ''app/src/main/res/mipmap-xxxhdpi'' ''ic_launcher.png'' = ''app/src/main/res/mipmap-xxxhdpi/ic_launcher.png''"
  "path_join ''app/src/main/res/mipmap-xxxhdpi'' ''ic_launcher_round.png'' = ''app/src/main/res/mipmap-xxxhdpi/ic_launcher_round.png''"
  by (simp_all add: path_join_def base_path_def)

lemma dir_prefixes:
  "path_prefixes ''app/src/main/res/mipmap-mdpi'' = [''app'', ''app/src'', ''app/src/main'', ''app/src/main/res'', ''app/src/main/res/mipmap-mdpi'']"
  "path_prefixes ''app/src/main/res/mipmap-hdpi'' = [''app'', ''app/src'', ''app/src/main'', ''app/src/main/res'', ''app/src/main/res/mipmap-hdpi'']"
  "path_prefixes ''app/src/main/res/mipmap-xhdpi'' = [''app'', ''app/src'', ''app/src/main'', ''app/src/main/res'', ''app/src/main/res/mipmap-xhdpi'']"
  "path_prefixes ''app/src/main/res/mipmap-xxhdpi'' = [''app'', ''app/src'', ''app/src/main'', ''app/src/main/res'', ''app/src/main/res/mipmap-xxhdpi'']"
  "path_prefixes ''app/src/main/res/mipmap-xxxhdpi'' = [''app'', ''app/src'', ''app/src/main'', ''app/src/main/res'', ''app/src/main/res/mipmap-xxxhdpi'']"
  by code_simp+

lemma parents:
  "parent_dir ''app/src/main/res/mipmap-mdpi/ic_launcher.png'' = ''app/src/main/res/mipmap-mdpi''"
  "parent_dir ''app/src/main/res/mipmap-mdpi/ic_launcher_round.png'' = ''app/src/main/res/mipmap-mdpi''"
  "parent_dir ''app/src/main/res/mipmap-hdpi/ic_launcher.png'' = ''app/src/main/res/mipmap-hdpi''"
  "parent_dir ''app/src/main/res/mipmap-hdpi/ic_launcher_round.png'' = ''app/src/main/res/mipmap-hdpi''"
  "parent_dir ''app/src/main/res/mipmap-xhdpi/ic_launcher.png'' = ''app/src/main/res/mipmap-xhdpi''"
  "parent_dir ''app/src/main/res/mipmap-xhdpi/ic_launcher_round.png'' = ''app/src/main/res/mipmap-xhdpi''"
  "parent_dir ''app/src/main/res/mipmap-xxhdpi/ic_launcher.png'' = ''app/src/main/res/mipmap-xxhdpi''"
  "parent_dir ''app/src/main/res/mipmap-xxhdpi/ic_launcher_round.png'' = ''app/src/main/res/mipmap-xxhdpi''"
  "parent_dir ''app/src/main/res/mipmap-xxxhdpi/ic_launcher.png'' = ''app/src/main/res/mipmap-xxxhdpi''"
  "parent_dir ''app/src/main/res/mipmap-xxxhdpi/ic_launcher_round.png'' = ''app/src/main/res/mipmap-xxxhdpi''"
  by code_simp+

lemma icon_step_ok:
  assumes nofault: "\<forall>op p. fault w op p = None"
    and noprint: "\<forall>l. print_fault w l = None"
    and png: "create_png zc s s default_bg_color default_text_color = Inr png"
    and D: "path_join base_path (''mipmap-'' @ d) = D"
    and L: "path_join D ''ic_launcher.png'' = L"
    and R: "path_join D ''ic_launcher_round.png'' = R"
    and free: "\<forall>q \<in> set (path_prefixes D). files w q = None"
    and nodir: "L \<notin> dirs w" "R \<notin> dirs w" "L \<notin> set (path_prefixes D)" "R \<notin> set (path_prefixes D)"
    and parent: "parent_dir L = D" "parent_dir R = D"
  shows "\<exists>w'. icon_step zc (d, s) w = (Inr (), w')
           \<and> files w' = (files w)(L \<mapsto> png, R \<mapsto> png)
           \<and> dirs w' = dirs w \<union> set (path_prefixes D)
           \<and> fault w' = fault w \<and> print_fault w' = print_fault w"
proof -
  have last: "D \<in> set (path_prefixes D)" by (simp add: path_prefixes_def)
  have b: "\<not> list_ex (\<lambda>q. files w q \<noteq> None) (butlast (path_prefixes D))"
    using free by (auto simp: list_ex_iff dest: in_set_butlastD)
  have fD: "files w D = None" using free last by blast
  show ?thesis
    unfolding icon_step_def Let_def prod.case D L R png sum.case
    using nofault noprint b fD nodir parent last
    by (simp add: os_makedirs_def write_file_def open_wb_def file_write_def print_def)
qed

lemma generate_all_icons_Inr:
  assumes g: "generate_all_icons zc w = (Inr u, w')"
  shows "\<exists>p1 p2 p3 p4 p5. create_png zc 48 48 default_bg_color default_text_color = Inr p1 \<and> create_png zc 72 72 default_bg_color default_text_color = Inr p2 \<and> create_png zc 96 96 default_bg_color default_text_color = Inr p3 \<and> create_png zc 144 144 default_bg_color default_text_color = Inr p4 \<and> create_png zc 192 192 default_bg_color default_text_color = Inr p5
           \<and> files w' = (files w)(''app/src/main/res/mipmap-mdpi/ic_launcher.png'' \<mapsto> p1, ''app/src/main/res/mipmap-mdpi/ic_launcher_round.png'' \<mapsto> p1, ''app/src/main/res/mipmap-hdpi/ic_launcher.png'' \<mapsto> p2, ''app/src/main/res/mipmap-hdpi/ic_launcher_round.png'' \<mapsto> p2, ''app/src/main/res/mipmap-xhdpi/ic_launcher.png'' \<mapsto> p3, ''app/src/main/res/mipmap-xhdpi/ic_launcher_round.png'' \<mapsto> p3, ''app/src/main/res/mipmap-xxhdpi/ic_launcher.png'' \<mapsto> p4, ''app/src/main/res/mipmap-xxhdpi/ic_launcher_round.png'' \<mapsto> p4, ''app/src/main/res/mipmap-xxxhdpi/ic_launcher.png'' \<mapsto> p5, ''app/src/main/res/mipmap-xxxhdpi/ic_launcher_round.png'' \<mapsto> p5)"
proof -
  from g obtain u0 w0 w5' where
    p: "print_lines [MsgGenerating, MsgRule] w = (Inr u0, w0)" and
    l: "icon_loop zc densities w0 = (Inr (), w5')" and
    q: "print_lines [MsgBlankRule, MsgComplete, MsgNote, MsgProduction, MsgRightClick,
                     MsgAdaptive, MsgConfigured] w5' = (Inr u, w')"
    unfolding generate_all_icons_def by (auto split: prod.splits sum.splits)
  from print_lines_fields [OF p] have f0: "files w0 = files w" by simp
  from print_lines_fields [OF q] have fw: "files w' = files w5'" by simp
  note l0 = l [unfolded densities_def]
  from icon_loop_Cons_Inr [OF l0] obtain w1 where
    s1: "icon_step zc (''mdpi'', 48) w0 = (Inr (), w1)" and l1: "icon_loop zc [(''hdpi'', 72), (''xhdpi'', 96), (''xxhdpi'', 144), (''xxxhdpi'', 192)] w1 = (Inr (), w5')"
    by blast
  from icon_step_Inr [OF s1] obtain p1 where
    c1: "create_png zc 48 48 default_bg_color default_text_color = Inr p1" and
    f1: "files w1 = (files w0)(''app/src/main/res/mipmap-mdpi/ic_launcher.png'' \<mapsto> p1, ''app/src/main/res/mipmap-mdpi/ic_launcher_round.png'' \<mapsto> p1)"
    by (auto simp: paths)
  from icon_loop_Cons_Inr [OF l1] obtain w2 where
    s2: "icon_step zc (''hdpi'', 72) w1 = (Inr (), w2)" and l2: "icon_loop zc [(''xhdpi'', 96), (''xxhdpi'', 144), (''xxxhdpi'', 192)] w2 = (Inr (), w5')"
    by blast
  from icon_step_Inr [OF s2] obtain p2 where
    c2: "create_png zc 72 72 default_bg_color default_text_color = Inr p2" and
    f2: "files w2 = (files w1)(''app/src/main/res/mipmap-hdpi/ic_launcher.png'' \<mapsto> p2, ''app/src/main/res/mipmap-hdpi/ic_launcher_round.png'' \<mapsto> p2)"
    by (auto simp: paths)
  from icon_loop_Cons_Inr [OF l2] obtain w3 where
    s3: "icon_step zc (''xhdpi'', 96) w2 = (Inr (), w3)" and l3: "icon_loop zc [(''xxhdpi'', 144), (''xxxhdpi'', 192)] w3 = (Inr (), w5')"
    by blast
  from icon_step_Inr [OF s3] obtain p3 where
    c3: "create_png zc 96 96 default_bg_color default_text_color = Inr p3" and
    f3: "files w3 = (files w2)(''app/src/main/res/mipmap-xhdpi/ic_launcher.png'' \<mapsto> p3, ''app/src/main/res/mipmap-xhdpi/ic_launcher_round.png'' \<mapsto> p3)"
    by (auto simp: paths)
  from icon_loop_Cons_Inr [OF l3] obtain w4 where
    s4: "icon_step zc (''xxhdpi'', 144) w3 = (Inr (), w4)" and l4: "icon_loop zc [(''xxxhdpi'', 192)] w4 = (Inr (), w5')"
    by blast
  from icon_step_Inr [OF s4] obtain p4 where
    c4: "create_png zc 144 144 default_bg_color default_text_color = Inr p4" and
    f4: "files w4 = (files w3)(''app/src/main/res/mipmap-xxhdpi/ic_launcher.png'' \<mapsto> p4, ''app/src/main/res/mipmap-xxhdpi/ic_launcher_round.png'' \<mapsto> p4)"
    by (auto simp: paths)
  from icon_loop_Cons_Inr [OF l4] obtain w5 where
    s5: "icon_step zc (''xxxhdpi'', 192) w4 = (Inr (), w5)" and l5: "icon_loop zc [] w5 = (Inr (), w5')"
    by blast
  from icon_step_Inr [OF s5] obtain p5 where
    c5: "create_png zc 192 192 default_bg_color default_text_color = Inr p5" and
    f5: "files w5 = (files w4)(''app/src/main/res/mipmap-xxxhdpi/ic_launcher.png'' \<mapsto> p5, ''app/src/main/res/mipmap-xxxhdpi/ic_launcher_round.png'' \<mapsto> p5)"
    by (auto simp: paths)
  from l5 have e: "w5' = w5" by simp
  from c1 c2 c3 c4 c5 show ?thesis
    unfolding fw e f5 f4 f3 f2 f1 f0 by blast
qed

lemma generate_all_icons_ok:
  assumes nofault: "\<forall>op p. fault w op p = None"
    and noprint: "\<forall>l. print_fault w l = None"
    and nofile: "\<forall>(d, s) \<in> set densities.
                   \<forall>q \<in> set (path_prefixes (''app/src/main/res/mipmap-'' @ d)). files w q = None"
    and nodir: "\<forall>p \<in> set expected_icon_files. p \<notin> dirs w"
    and returns: "\<forall>(d, s) \<in> set densities.
                   \<exists>png. create_png zc s s default_bg_color default_text_color = Inr png"
  shows "\<exists>w'. generate_all_icons zc w = (Inr (), w')"
proof -
  from returns obtain p1 p2 p3 p4 p5 where
    c1: "create_png zc 48 48 default_bg_color default_text_color = Inr p1" and
    c2: "create_png zc 72 72 default_bg_color default_text_color = Inr p2" and
    c3: "create_png zc 96 96 default_bg_color default_text_color = Inr p3" and
    c4: "create_png zc 144 144 default_bg_color default_text_color = Inr p4" and
    c5: "create_png zc 192 192 default_bg_color default_text_color = Inr p5"
    by (auto simp: densities_def)
  from nofile have h1: "files w ''app'' = None" "files w ''app/src'' = None" "files w ''app/src/main'' = None" "files w ''app/src/main/res'' = None" "files w ''app/src/main/res/mipmap-mdpi'' = None" "files w ''app/src/main/res/mipmap-hdpi'' = None" "files w ''app/src/main/res/mipmap-xhdpi'' = None" "files w ''app/src/main/res/mipmap-xxhdpi'' = None" "files w ''app/src/main/res/mipmap-xxxhdpi'' = None"
    by (simp_all add: densities_def dir_prefixes)
  from nodir have h2: "''app/src/main/res/mipmap-mdpi/ic_launcher.png'' \<notin> dirs w" "''app/src/main/res/mipmap-mdpi/ic_launcher_round.png'' \<notin> dirs w" "''app/src/main/res/mipmap-hdpi/ic_launcher.png'' \<notin> dirs w" "''app/src/main/res/mipmap-hdpi/ic_launcher_round.png'' \<notin> dirs w" "''app/src/main/res/mipmap-xhdpi/ic_launcher.png'' \<notin> dirs w" "''app/src/main/res/mipmap-xhdpi/ic_launcher_round.png'' \<notin> dirs w" "''app/src/main/res/mipmap-xxhdpi/ic_launcher.png'' \<notin> dirs w" "''app/src/main/res/mipmap-xxhdpi/ic_launcher_round.png'' \<notin> dirs w" "''app/src/main/res/mipmap-xxxhdpi/ic_launcher.png'' \<notin> dirs w" "''app/src/main/res/mipmap-xxxhdpi/ic_launcher_round.png'' \<notin> dirs w"
    by (simp_all add: expected_icon_files_def)
  let ?w0 = "w\<lparr>stdout := stdout w @ [MsgGenerating, MsgRule]\<rparr>"
  have p: "print_lines [MsgGenerating, MsgRule] w = (Inr (), ?w0)"
    apply (rule print_lines_ok)
    using noprint apply simp
    done
  have nf0: "fault ?w0 = fault w" and pf0: "print_fault ?w0 = print_fault w"
    and f0: "files ?w0 = files w" and d0: "dirs ?w0 = dirs w"
    by simp_all
  have "\<exists>w'. icon_step zc (''mdpi'', 48) ?w0 = (Inr (), w')
           \<and> files w' = (files ?w0)(''app/src/main/res/mipmap-mdpi/ic_launcher.png'' \<mapsto> p1, ''app/src/main/res/mipmap-mdpi/ic_launcher_round.png'' \<mapsto> p1)
           \<and> dirs w' = dirs ?w0 \<union> set (path_prefixes ''app/src/main/res/mipmap-mdpi'')
           \<and> fault w' = fault ?w0 \<and> print_fault w' = print_fault ?w0"
    apply (rule icon_step_ok [where D = "''app/src/main/res/mipmap-mdpi''"])
    using nofault noprint nf0 pf0 f0 d0 c1 h1 h2 apply (simp_all add: paths dir_prefixes parents)
    done
  then obtain w1 where
    s1: "icon_step zc (''mdpi'', 48) ?w0 = (Inr (), w1)" and
    f1: "files w1 = (files ?w0)(''app/src/main/res/mipmap-mdpi/ic_launcher.png'' \<mapsto> p1, ''app/src/main/res/mipmap-mdpi/ic_launcher_round.png'' \<mapsto> p1)" and
    d1: "dirs w1 = dirs ?w0 \<union> set (path_prefixes ''app/src/main/res/mipmap-mdpi'')" and
    nf1: "fault w1 = fault ?w0" and pf1: "print_fault w1 = print_fault ?w0"
    by blast
  have "\<exists>w'. icon_step zc (''hdpi'', 72) w1 = (Inr (), w')
           \<and> files w' = (files w1)(''app/src/main/res/mipmap-hdpi/ic_launcher.png'' \<mapsto> p2, ''app/src/main/res/mipmap-hdpi/ic_launcher_round.png'' \<mapsto> p2)
           \<and> dirs w' = dirs w1 \<union> set (path_prefixes ''app/src/main/res/mipmap-hdpi'')
           \<and> fault w' = fault w1 \<and> print_fault w' = print_fault w1"
    apply (rule icon_step_ok [where D = "''app/src/main/res/mipmap-hdpi''"])
    using nofault noprint nf0 pf0 f0 d0 nf1 pf1 f1 d1 c2 h1 h2 apply (simp_all add: paths dir_prefixes parents)
    done
  then obtain w2 where
    s2: "icon_step zc (''hdpi'', 72) w1 = (Inr (), w2)" and
    f2: "files w2 = (files w1)(''app/src/main/res/mipmap-hdpi/ic_launcher.png'' \<mapsto> p2, ''app/src/main/res/mipmap-hdpi/ic_launcher_round.png'' \<mapsto> p2)" and
    d2: "dirs w2 = dirs w1 \<union> set (path_prefixes ''app/src/main/res/mipmap-hdpi'')" and
    nf2: "fault w2 = fault w1" and pf2: "print_fault w2 = print_fault w1"
    by blast
  have "\<exists>w'. icon_step zc (''xhdpi'', 96) w2 = (Inr (), w')
           \<and> files w' = (files w2)(''app/src/main/res/mipmap-xhdpi/ic_launcher.png'' \<mapsto> p3, ''app/src/main/res/mipmap-xhdpi/ic_launcher_round.png'' \<mapsto> p3)
           \<and> dirs w' = dirs w2 \<union> set (path_prefixes ''app/src/main/res/mipmap-xhdpi'')
           \<and> fault w' = fault w2 \<and> print_fault w' = print_fault w2"
    apply (rule icon_step_ok [where D = "''app/src/main/res/mipmap-xhdpi''"])
    using nofault noprint nf0 pf0 f0 d0 nf1 pf1 f1 d1 nf2 pf2 f2 d2 c3 h1 h2 apply (simp_all add: paths dir_prefixes parents)
    done
  then obtain w3 where
    s3: "icon_step zc (''xhdpi'', 96) w2 = (Inr (), w3)" and
    f3: "files w3 = (files w2)(''app/src/main/res/mipmap-xhdpi/ic_launcher.png'' \<mapsto> p3, ''app/src/main/res/mipmap-xhdpi/ic_launcher_round.png'' \<mapsto> p3)" and
    d3: "dirs w3 = dirs w2 \<union> set (path_prefixes ''app/src/main/res/mipmap-xhdpi'')" and
    nf3: "fault w3 = fault w2" and pf3: "print_fault w3 = print_fault w2"
    by blast
  have "\<exists>w'. icon_step zc (''xxhdpi'', 144) w3 = (Inr (), w')
           \<and> files w' = (files w3)(''app/src/main/res/mipmap-xxhdpi/ic_launcher.png'' \<mapsto> p4, ''app/src/main/res/mipmap-xxhdpi/ic_launcher_round.png'' \<mapsto> p4)
           \<and> dirs w' = dirs w3 \<union> set (path_prefixes ''app/src/main/res/mipmap-xxhdpi'')
           \<and> fault w' = fault w3 \<and> print_fault w' = print_fault w3"
    apply (rule icon_step_ok [where D = "''app/src/main/res/mipmap-xxhdpi''"])
    using nofault noprint nf0 pf0 f0 d0 nf1 pf1 f1 d1 nf2 pf2 f2 d2 nf3 pf3 f3 d3 c4 h1 h2 apply (simp_all add: paths dir_prefixes parents)
    done
  then obtain w4 where
    s4: "icon_step zc (''xxhdpi'', 144) w3 = (Inr (), w4)" and
    f4: "files w4 = (files w3)(''app/src/main/res/mipmap-xxhdpi/ic_launcher.png'' \<mapsto> p4, ''app/src/main/res/mipmap-xxhdpi/ic_launcher_round.png'' \<mapsto> p4)" and
    d4: "dirs w4 = dirs w3 \<union> set (path_prefixes ''app/src/main/res/mipmap-xxhdpi'')" and
    nf4: "fault w4 = fault w3" and pf4: "print_fault w4 = print_fault w3"
    by blast
  have "\<exists>w'. icon_step zc (''xxxhdpi'', 192) w4 = (Inr (), w')
           \<and> files w' = (files w4)(''app/src/main/res/mipmap-xxxhdpi/ic_launcher.png'' \<mapsto> p5, ''app/src/main/res/mipmap-xxxhdpi/ic_launcher_round.png'' \<mapsto> p5)
           \<and> dirs w' = dirs w4 \<union> set (path_prefixes ''app/src/main/res/mipmap-xxxhdpi'')
           \<and> fault w' = fault w4 \<and> print_fault w' = print_fault w4"
    apply (rule icon_step_ok [where D = "''app/src/main/res/mipmap-xxxhdpi''"])
    using nofault noprint nf0 pf0 f0 d0 nf1 pf1 f1 d1 nf2 pf2 f2 d2 nf3 pf3 f3 d3 nf4 pf4 f4 d4 c5 h1 h2 apply (simp_all add: paths dir_prefixes parents)
    done
  then obtain w5 where
    s5: "icon_step zc (''xxxhdpi'', 192) w4 = (Inr (), w5)" and
    f5: "files w5 = (files w4)(''app/src/main/res/mipmap-xxxhdpi/ic_launcher.png'' \<mapsto> p5, ''app/src/main/res/mipmap-xxxhdpi/ic_launcher_round.png'' \<mapsto> p5)" and
    d5: "dirs w5 = dirs w4 \<union> set (path_prefixes ''app/src/main/res/mipmap-xxxhdpi'')" and
    nf5: "fault w5 = fault w4" and pf5: "print_fault w5 = print_fault w4"
    by blast
  have l: "icon_loop zc densities ?w0 = (Inr (), w5)"
    unfolding densities_def by (simp add: s1 s2 s3 s4 s5)
  have q: "print_lines [MsgBlankRule, MsgComplete, MsgNote, MsgProduction, MsgRightClick,
                        MsgAdaptive, MsgConfigured] w5
             = (Inr (), w5\<lparr>stdout := stdout w5 @ [MsgBlankRule, MsgComplete, MsgNote, MsgProduction,
                                                      MsgRightClick, MsgAdaptive, MsgConfigured]\<rparr>)"
    apply (rule print_lines_ok)
    using noprint pf5 pf4 pf3 pf2 pf1 pf0 apply simp
    done
  have "generate_all_icons zc w
          = (Inr (), w5\<lparr>stdout := stdout w5 @ [MsgBlankRule, MsgComplete, MsgNote, MsgProduction,
                                                   MsgRightClick, MsgAdaptive, MsgConfigured]\<rparr>)"
    by (simp only: generate_all_icons_def p prod.case sum.case l q)
  then show ?thesis by blast
qed

lemma default_bg_color_valid: "list_all (\<lambda>c. 0 \<le> c \<and> c < 256) default_bg_color"
  by (simp add: default_bg_color_def)

lemma image_data_default:
  "image_data s s default_bg_color
     = Inr (concat (replicate (nat s) (0 # concat (replicate (nat s) [255, 107, 107]))))"
  using image_data_valid [OF default_bg_color_valid, of s s]
  by (simp add: default_bg_color_def)

lemma create_png_default_returns:
  assumes "0 \<le> s" and "s < 2 ^ 32"
    and "\<forall>raw. image_data s s default_bg_color = Inr raw \<longrightarrow> length (zc raw 9) < 2 ^ 32"
  shows "\<exists>png. create_png zc s s default_bg_color default_text_color = Inr png"
  using assms unfolding create_png_eq
  by (simp add: image_data_default)



lemma image_data_default_length:
  "image_data s s default_bg_color = Inr raw \<Longrightarrow> length raw = nat s * (1 + 3 * nat s)"
  unfolding image_data_default by (auto simp: length_concat_replicate)

lemma store_small:
  "\<forall>(d, s) \<in> set densities.
     \<forall>raw. image_data s s default_bg_color = Inr raw \<longrightarrow> length (store_compress raw 9) < 2 ^ 32"
  by (auto simp: densities_def store_compress_def dest!: image_data_default_length)

lemma densities_return:
  assumes "\<forall>(d, s) \<in> set densities.
             \<forall>raw. image_data s s default_bg_color = Inr raw \<longrightarrow> length (zc raw 9) < 2 ^ 32"
  shows "\<forall>(d, s) \<in> set densities.
           \<exists>png. create_png zc s s default_bg_color default_text_color = Inr png"
proof (clarify)
  fix d s assume m: "(d, s) \<in> set densities"
  then have "0 \<le> s" "s < 2 ^ 32" by (auto simp: densities_def)
  moreover from assms m
  have "\<forall>raw. image_data s s default_bg_color = Inr raw \<longrightarrow> length (zc raw 9) < 2 ^ 32"
    by blast
  ultimately show "\<exists>png. create_png zc s s default_bg_color default_text_color = Inr png"
    by (rule create_png_default_returns)
qed

lemma empty_world_fields:
  "\<forall>op p. fault (empty_world no_fault) op p = None"
  "\<forall>l. print_fault (empty_world f) l = None"
  "\<forall>(d, s) \<in> set densities.
     \<forall>q \<in> set (path_prefixes (''app/src/main/res/mipmap-'' @ d)). files (empty_world f) q = None"
  "\<forall>p \<in> set expected_icon_files. p \<notin> dirs (empty_world f)"
  by (simp_all add: empty_world_def no_fault_def)

lemma empty_world_run:
  "\<exists>w'. generate_all_icons store_compress (empty_world no_fault) = (Inr (), w')"
  by (rule generate_all_icons_ok [where zc = store_compress, OF empty_world_fields
        densities_return [where zc = store_compress, OF store_small]])

section \<open>The ten files\<close>



section \<open>The two files of a density\<close>

text \<open>
  Claim C7. After a run of \<open>generate_all_icons\<close> that completes, for every density of the
  table the files \<open>ic_launcher.png\<close> and \<open>ic_launcher_round.png\<close> of its directory hold the same
  bytes, the result of \<open>create_png\<close> for the size of that density with the default colours.
  The driver calls \<open>create_png\<close> once for each density (line 76) and writes the result twice.
\<close>

theorem launcher_files_identical:
  assumes "generate_all_icons compress w = (Inr u, w')"
  shows "\<forall>(d, s) \<in> set [(''mdpi'', 48), (''hdpi'', 72), (''xhdpi'', 96), (''xxhdpi'', 144), (''xxxhdpi'', 192)].
           \<exists>png. create_png compress s s default_bg_color default_text_color = Inr png
             \<and> files w' (''app/src/main/res/mipmap-'' @ d @ ''/ic_launcher.png'') = Some png
             \<and> files w' (''app/src/main/res/mipmap-'' @ d @ ''/ic_launcher_round.png'') = Some png"
proof -
  from generate_all_icons_Inr [OF assms] obtain p1 p2 p3 p4 p5 where
    c: "create_png compress 48 48 default_bg_color default_text_color = Inr p1"
       "create_png compress 72 72 default_bg_color default_text_color = Inr p2"
       "create_png compress 96 96 default_bg_color default_text_color = Inr p3"
       "create_png compress 144 144 default_bg_color default_text_color = Inr p4"
       "create_png compress 192 192 default_bg_color default_text_color = Inr p5"
    and f: "files w' = (files w)(''app/src/main/res/mipmap-mdpi/ic_launcher.png'' \<mapsto> p1, ''app/src/main/res/mipmap-mdpi/ic_launcher_round.png'' \<mapsto> p1, ''app/src/main/res/mipmap-hdpi/ic_launcher.png'' \<mapsto> p2, ''app/src/main/res/mipmap-hdpi/ic_launcher_round.png'' \<mapsto> p2, ''app/src/main/res/mipmap-xhdpi/ic_launcher.png'' \<mapsto> p3, ''app/src/main/res/mipmap-xhdpi/ic_launcher_round.png'' \<mapsto> p3, ''app/src/main/res/mipmap-xxhdpi/ic_launcher.png'' \<mapsto> p4, ''app/src/main/res/mipmap-xxhdpi/ic_launcher_round.png'' \<mapsto> p4, ''app/src/main/res/mipmap-xxxhdpi/ic_launcher.png'' \<mapsto> p5, ''app/src/main/res/mipmap-xxxhdpi/ic_launcher_round.png'' \<mapsto> p5)"
    by blast
  show ?thesis unfolding f using c by simp
qed

theorem launcher_files_identical_witness:
  "\<exists>w' png. generate_all_icons store_compress (empty_world no_fault) = (Inr (), w')
     \<and> create_png store_compress 48 48 default_bg_color default_text_color = Inr png
     \<and> files w' ''app/src/main/res/mipmap-mdpi/ic_launcher.png'' = Some png
     \<and> files w' ''app/src/main/res/mipmap-mdpi/ic_launcher_round.png'' = Some png"
proof -
  from empty_world_run obtain w' where
    g: "generate_all_icons store_compress (empty_world no_fault) = (Inr (), w')" by blast
  from launcher_files_identical [OF g] g show ?thesis by auto
qed

section \<open>The handler at the top level\<close>

lemma generate_all_icons_makedirs_fault:
  assumes p: "print_fault w MsgGenerating = None" "print_fault w MsgRule = None"
    and f: "fault w OpMakedirs ''app/src/main/res/mipmap-mdpi'' = Some e"
  shows "generate_all_icons zc w = (Inl e, w\<lparr>stdout := stdout w @ [MsgGenerating, MsgRule]\<rparr>)"
proof -
  let ?w0 = "w\<lparr>stdout := stdout w @ [MsgGenerating, MsgRule]\<rparr>"
  have l: "print_lines [MsgGenerating, MsgRule] w = (Inr (), ?w0)"
    by (rule print_lines_ok) (simp add: p)
  have "icon_step zc (''mdpi'', 48) ?w0 = (Inl e, ?w0)"
    using f by (simp add: icon_step_def os_makedirs_def paths)
  then have "icon_loop zc densities ?w0 = (Inl e, ?w0)"
    unfolding densities_def by (rule icon_loop_Cons_Inl)
  then show ?thesis
    by (simp only: generate_all_icons_def l prod.case sum.case)
qed

lemma ascii_world_run:
  "generate_all_icons zc ascii_world = (Inl UnicodeEncodeError, ascii_world)"
proof -
  have "print_fault ascii_world MsgGenerating = Some UnicodeEncodeError"
    by (simp add: ascii_world_def)
  then have "print_lines [MsgGenerating, MsgRule] ascii_world = (Inl UnicodeEncodeError, ascii_world)"
    by (rule print_lines_refused)
  then show ?thesis
    by (simp only: generate_all_icons_def prod.case sum.case)
qed

text \<open>
  Claim C8 as stated, for every exception, does not hold. On a console that encodes ASCII
  only, the \<open>print\<close> of line 62 raises \<open>UnicodeEncodeError\<close>, which derives from \<open>Exception\<close>:
  the handler catches it, and its own first \<open>print\<close> (line 99) raises again, so that the
  exception leaves the script, no error message and no instruction is printed, and the exit
  status is not 0. And \<open>except Exception\<close> does not handle a \<open>KeyboardInterrupt\<close>: when the
  first \<open>os.makedirs\<close> is interrupted, the exception leaves the script after the two lines
  printed before it, and the exit status is not 0. Last, when \<open>os.makedirs\<close> is refused and the
  handler has printed its lines, but the last flush of the standard output fails, nothing
  leaves the script and the exit status is not 0 all the same.
\<close>

theorem script_main_escapes_counterexample:
  "is_Exception UnicodeEncodeError
   \<and> generate_all_icons store_compress ascii_world = (Inl UnicodeEncodeError, ascii_world)
   \<and> fst (script_main store_compress ascii_world) = Inl UnicodeEncodeError
   \<and> stdout (snd (script_main store_compress ascii_world)) = []
   \<and> exit_status (script_main store_compress ascii_world) = ExitNonZero
   \<and> fst (script_main store_compress (empty_world interrupt_makedirs)) = Inl KeyboardInterrupt
   \<and> stdout (snd (script_main store_compress (empty_world interrupt_makedirs)))
        = [MsgGenerating, MsgRule]
   \<and> exit_status (script_main store_compress (empty_world interrupt_makedirs)) = ExitNonZero
   \<and> fst (script_main store_compress ((empty_world refuse_makedirs)\<lparr>flush_fails := True\<rparr>))
        = Inr ()
   \<and> exit_status (script_main store_compress
                     ((empty_world refuse_makedirs)\<lparr>flush_fails := True\<rparr>)) = ExitNonZero"
proof -
  have p: "print_fault ascii_world (MsgError UnicodeEncodeError) = Some UnicodeEncodeError"
    by (simp add: ascii_world_def)
  have a: "script_main store_compress ascii_world = (Inl UnicodeEncodeError, ascii_world)"
    by (simp only: script_main_def ascii_world_run prod.case sum.case is_Exception.simps
          if_True print_lines_refused [OF p])
  have "fault (empty_world interrupt_makedirs) OpMakedirs ''app/src/main/res/mipmap-mdpi''
          = Some KeyboardInterrupt"
    "print_fault (empty_world interrupt_makedirs) MsgGenerating = None"
    "print_fault (empty_world interrupt_makedirs) MsgRule = None"
    by (simp_all add: empty_world_def interrupt_makedirs_def)
  from generate_all_icons_makedirs_fault [OF this(2,3,1), of store_compress]
  have b: "script_main store_compress (empty_world interrupt_makedirs)
             = (Inl KeyboardInterrupt,
                (empty_world interrupt_makedirs)\<lparr>stdout := stdout (empty_world interrupt_makedirs)
                                                          @ [MsgGenerating, MsgRule]\<rparr>)"
    by (simp add: script_main_def)
  let ?w = "(empty_world refuse_makedirs)\<lparr>flush_fails := True\<rparr>"
  let ?ls = "[MsgError (OSError ''Permission denied''), MsgAlternative,
              MsgStep1, MsgStep2, MsgStep3, MsgStep4]"
  have "fault ?w OpMakedirs ''app/src/main/res/mipmap-mdpi'' = Some (OSError ''Permission denied'')"
    "print_fault ?w MsgGenerating = None"
    "print_fault ?w MsgRule = None"
    by (simp_all add: empty_world_def refuse_makedirs_def)
  from generate_all_icons_makedirs_fault [OF this(2,3,1), of store_compress]
  have g: "generate_all_icons store_compress ?w
             = (Inl (OSError ''Permission denied''),
                ?w\<lparr>stdout := stdout ?w @ [MsgGenerating, MsgRule]\<rparr>)" .
  have l: "print_lines ?ls (?w\<lparr>stdout := stdout ?w @ [MsgGenerating, MsgRule]\<rparr>)
             = (Inr (), ?w\<lparr>stdout := stdout ?w @ [MsgGenerating, MsgRule] @ ?ls\<rparr>)"
    by (simp add: print_def empty_world_def)
  have c: "script_main store_compress ?w
             = (Inr (), ?w\<lparr>stdout := stdout ?w @ [MsgGenerating, MsgRule] @ ?ls\<rparr>)"
    by (simp only: script_main_def g prod.case sum.case is_Exception.simps if_True l)
  have s: "stdout ascii_world = []"
    by (simp add: ascii_world_def empty_world_def)
  show ?thesis
    unfolding a b c by (simp add: ascii_world_run exit_status_def s empty_world_def)
qed

text \<open>
  Claim C8, for the exceptions that derive from \<open>Exception\<close> and a console that accepts the
  six lines of the handler. When \<open>generate_all_icons\<close> raises such an exception, the handler
  of lines 98 to 104 runs once: the script prints the error message with the exception and
  then the five lines of instructions, in this order, and raises nothing; when the last flush
  of the standard output succeeds the exit status is 0. What was printed and written before
  the exception stays.
\<close>

theorem script_main_catches:
  assumes g: "generate_all_icons compress w = (Inl e, w')"
    and e: "is_Exception e"
    and p: "\<forall>l \<in> set [MsgError e, MsgAlternative, MsgStep1, MsgStep2, MsgStep3, MsgStep4].
              print_fault w l = None"
    and f: "\<not> flush_fails w"
  shows "script_main compress w
           = (Inr (), w'\<lparr>stdout := stdout w' @ [MsgError e, MsgAlternative,
                                               MsgStep1, MsgStep2, MsgStep3, MsgStep4]\<rparr>)
         \<and> exit_status (script_main compress w) = ExitZero"
proof -
  let ?ls = "[MsgError e, MsgAlternative, MsgStep1, MsgStep2, MsgStep3, MsgStep4]"
  note k = generate_all_icons_fields [OF g]
  from p k have "\<forall>l \<in> set ?ls. print_fault w' l = None" by simp
  then have l: "print_lines ?ls w' = (Inr (), w'\<lparr>stdout := stdout w' @ ?ls\<rparr>)"
    by (rule print_lines_ok)
  have s: "script_main compress w = (Inr (), w'\<lparr>stdout := stdout w' @ ?ls\<rparr>)"
    using e by (simp only: script_main_def g prod.case sum.case l if_True)
  from f k show ?thesis
    unfolding s by (simp add: exit_status_def)
qed

theorem script_main_catches_witness:
  "is_Exception (OSError ''Permission denied'')
   \<and> fst (generate_all_icons store_compress (empty_world refuse_makedirs))
        = Inl (OSError ''Permission denied'')
   \<and> \<not> flush_fails (empty_world refuse_makedirs)
   \<and> fst (script_main store_compress (empty_world refuse_makedirs)) = Inr ()
   \<and> stdout (snd (script_main store_compress (empty_world refuse_makedirs)))
        = [MsgGenerating, MsgRule, MsgError (OSError ''Permission denied''), MsgAlternative,
           MsgStep1, MsgStep2, MsgStep3, MsgStep4]
   \<and> exit_status (script_main store_compress (empty_world refuse_makedirs)) = ExitZero"
proof -
  have "fault (empty_world refuse_makedirs) OpMakedirs ''app/src/main/res/mipmap-mdpi''
          = Some (OSError ''Permission denied'')"
    "print_fault (empty_world refuse_makedirs) MsgGenerating = None"
    "print_fault (empty_world refuse_makedirs) MsgRule = None"
    by (simp_all add: empty_world_def refuse_makedirs_def)
  from generate_all_icons_makedirs_fault [OF this(2,3,1), of store_compress]
  have g: "generate_all_icons store_compress (empty_world refuse_makedirs)
             = (Inl (OSError ''Permission denied''),
                (empty_world refuse_makedirs)\<lparr>stdout := stdout (empty_world refuse_makedirs)
                                                       @ [MsgGenerating, MsgRule]\<rparr>)" .
  have e: "is_Exception (OSError ''Permission denied'')" by simp
  have p: "\<forall>l \<in> set [MsgError (OSError ''Permission denied''), MsgAlternative,
                       MsgStep1, MsgStep2, MsgStep3, MsgStep4].
             print_fault (empty_world refuse_makedirs) l = None"
    by (simp add: empty_world_def)
  have f: "\<not> flush_fails (empty_world refuse_makedirs)"
    by (simp add: empty_world_def)
  from script_main_catches [OF g e p f] g e f show ?thesis
    by (simp add: empty_world_def exit_status_def)
qed

end
